theory Spec2Isabelle
  imports Complex_Main "HOL-Library.Word"
begin

section \<open>RescuNet: road-graph cache, graph mutators and greedy dispatch\<close>

text \<open>
  A shallow embedding of the core of the RescuNet backend
  (\<^verbatim>\<open>backend/app/cache.py\<close>, \<^verbatim>\<open>backend/app/utils.py\<close>, \<^verbatim>\<open>backend/app/models.py\<close>,
  \<^verbatim>\<open>backend/app/main.py\<close> and \<^verbatim>\<open>backend/router/python_router.py\<close>).

  Conventions of the embedding:
  \<^item> Python \<^verbatim>\<open>float\<close> values (coordinates, lengths, costs, timestamps) are real numbers;
    rounding error, infinities and NaN are not represented. The sign of a zero is
    represented only where it is printed, in the section on cache keys.
  \<^item> Python \<^verbatim>\<open>int\<close> values are \<^typ>\<open>int\<close>.
  \<^item> An exception that leaves a function is the \<open>Inl\<close> branch of a sum.
  \<^item> Calls into third-party libraries (networkx shortest paths, osmnx nearest edge,
    shapely curve operations, the SHA-1 digest, string hashing, the clock) are parameters
    of the functions that use them.
\<close>

datatype py_error =
  TypeError | ZeroDivisionError | KeyError | IndexError | ValueError | NodeNotFound | NetworkXNoPath


section \<open>Bounding-box cache (cache.py)\<close>

subsection \<open>Constants\<close>

definition ACCESS_TTL_SECONDS :: real where
  "ACCESS_TTL_SECONDS = 24 * 3600"

definition DOWNLOAD_TTL_SECONDS :: real where
  "DOWNLOAD_TTL_SECONDS = 7 * 24 * 3600"

subsection \<open>The cache table\<close>

text \<open>
  One row of the table \<^verbatim>\<open>graph_cache\<close>. The column \<^verbatim>\<open>cache_key\<close> is the primary key, so
  the table is a finite map from keys to the remaining three columns.
\<close>

record 'g cache_row =
  graph_blob :: 'g
  download_time :: real
  last_access :: real

type_synonym 'g cache_db = "string \<rightharpoonup> 'g cache_row"

text \<open>
  \<^verbatim>\<open>load_from_cache\<close>: a miss returns \<^verbatim>\<open>None\<close> and leaves the table alone; a hit stamps
  \<^verbatim>\<open>last_access\<close> with the clock and returns the stored graph.
\<close>

definition load_from_cache :: "real \<Rightarrow> string \<Rightarrow> 'g cache_db \<Rightarrow> 'g option \<times> 'g cache_db" where
  "load_from_cache now cache_key db =
     (case db cache_key of
        None \<Rightarrow> (None, db)
      | Some row \<Rightarrow> (Some (graph_blob row), db(cache_key \<mapsto> row\<lparr>last_access := now\<rparr>)))"

text \<open>\<^verbatim>\<open>save_to_cache\<close>: \<^verbatim>\<open>REPLACE INTO\<close> with both timestamps set to the clock.\<close>

definition save_to_cache :: "real \<Rightarrow> string \<Rightarrow> 'g \<Rightarrow> 'g cache_db \<Rightarrow> 'g cache_db" where
  "save_to_cache current_time cache_key G db =
     db(cache_key \<mapsto> \<lparr>graph_blob = G, download_time = current_time, last_access = current_time\<rparr>)"

text \<open>
  \<^verbatim>\<open>cleanup_cache\<close>:
  \<^verbatim>\<open>DELETE FROM graph_cache WHERE last_access < access_cutoff OR download_time < download_cutoff\<close>.
\<close>

definition cleanup_cache :: "real \<Rightarrow> 'g cache_db \<Rightarrow> 'g cache_db" where
  "cleanup_cache current_time db =
     (let access_cutoff = current_time - ACCESS_TTL_SECONDS;
          download_cutoff = current_time - DOWNLOAD_TTL_SECONDS
      in (\<lambda>k. case db k of
                 None \<Rightarrow> None
               | Some row \<Rightarrow>
                   if last_access row < access_cutoff \<or> download_time row < download_cutoff
                   then None else Some row))"


section \<open>Cache keys (cache.py)\<close>

text \<open>
  The key depends on how a float is rounded and printed, where the sign of a zero shows.
  In this section a Python float is therefore a sign and a magnitude; \<open>float_value\<close> is
  the number it stands for, and \<open>py_eq\<close> is Python's \<^verbatim>\<open>==\<close>, under which \<^verbatim>\<open>-0.0\<close> and
  \<^verbatim>\<open>0.0\<close> are equal.
\<close>

record pyfloat =
  negative :: bool
  magnitude :: real

definition float_value :: "pyfloat \<Rightarrow> real" where
  "float_value x = (if negative x then - magnitude x else magnitude x)"

definition py_eq :: "pyfloat \<Rightarrow> pyfloat \<Rightarrow> bool" where
  "py_eq a b \<longleftrightarrow> float_value a = float_value b"

definition ROUND :: nat where
  "ROUND = 5"

text \<open>
  \<^verbatim>\<open>round(x, ndigits)\<close> on a float: the nearest multiple of \<open>10\<^sup>-\<^sup>n\<close>, a tie going to the even
  multiple, with the sign of \<open>x\<close>, also when the result is zero.
\<close>

definition round_half_even :: "real \<Rightarrow> int" where
  "round_half_even x =
     (let f = \<lfloor>x\<rfloor>; r = x - of_int f
      in if r < 1 / 2 then f else if 1 / 2 < r then f + 1 else if even f then f else f + 1)"

definition py_round :: "pyfloat \<Rightarrow> nat \<Rightarrow> pyfloat" where
  "py_round x ndigits =
     \<lparr>negative = negative x,
      magnitude = of_int (round_half_even (magnitude x * 10 ^ ndigits)) / 10 ^ ndigits\<rparr>"

definition normalize_bbox ::
  "pyfloat \<Rightarrow> pyfloat \<Rightarrow> pyfloat \<Rightarrow> pyfloat \<Rightarrow> pyfloat \<times> pyfloat \<times> pyfloat \<times> pyfloat" where
  "normalize_bbox north south east west =
     (py_round north ROUND, py_round south ROUND, py_round east ROUND, py_round west ROUND)"

text \<open>
  The text of a float inside an f-string, for a float that is a multiple of \<open>10\<^sup>-\<^sup>5\<close> below
  \<open>10\<^sup>1\<^sup>6\<close>, as the rounded fields are: the shortest decimal that reads back, with at
  least one digit after the point, and the exponent form below \<open>10\<^sup>-\<^sup>4\<close>.
\<close>

definition digit_char :: "nat \<Rightarrow> char" where
  "digit_char d = ''0123456789'' ! (d mod 10)"

function nat_str :: "nat \<Rightarrow> string" where
  "nat_str n = (if n < 10 then [digit_char n] else nat_str (n div 10) @ [digit_char (n mod 10)])"
  by pat_completeness auto
termination
  by (relation "measure id") auto

declare nat_str.simps [simp del]

fun strip_zeros :: "string \<Rightarrow> string" where
  "strip_zeros [] = []"
| "strip_zeros (c # cs) =
     (case strip_zeros cs of [] \<Rightarrow> (if c = CHR ''0'' then [] else [c]) | r \<Rightarrow> c # r)"

definition fraction_str :: "nat \<Rightarrow> string" where
  "fraction_str k =
     (let padded = [digit_char (k div 10000), digit_char (k div 1000), digit_char (k div 100),
                    digit_char (k div 10), digit_char k];
          s = strip_zeros padded
      in if s = [] then ''0'' else s)"

definition float_str :: "pyfloat \<Rightarrow> string" where
  "float_str x =
     (let k = nat (round_half_even (magnitude x * 100000))
      in (if negative x then ''-'' else '''')
         @ (if 0 < k \<and> k < 10 then [digit_char k] @ ''e-05''
            else nat_str (k div 100000) @ ''.'' @ fraction_str (k mod 100000)))"

text \<open>
  \<^verbatim>\<open>sha1(raw.encode()).hexdigest()\<close>: the digest function is a parameter that maps the text
  to a value of 160 bits; \<open>hexdigest\<close> writes the 40 hexadecimal digits of that value.
\<close>

definition hex_char :: "nat \<Rightarrow> char" where
  "hex_char d = ''0123456789abcdef'' ! (d mod 16)"

definition hexdigest :: "160 word \<Rightarrow> string" where
  "hexdigest w = map (\<lambda>i. hex_char (unat (drop_bit (4 * i) w))) (rev [0..<40])"

definition make_bbox_key ::
  "(string \<Rightarrow> 160 word) \<Rightarrow> pyfloat \<Rightarrow> pyfloat \<Rightarrow> pyfloat \<Rightarrow> pyfloat \<Rightarrow> string" where
  "make_bbox_key sha1 north south east west =
     (let (n, s, e, w) = normalize_bbox north south east west;
          raw = float_str n @ '','' @ float_str s @ '','' @ float_str e @ '','' @ float_str w
      in hexdigest (sha1 raw))"

text \<open>Two boxes that differ in the sign of a north edge one millionth of a degree from 0.\<close>

definition pos_float :: "real \<Rightarrow> pyfloat" where
  "pos_float m = \<lparr>negative = False, magnitude = m\<rparr>"

definition neg_float :: "real \<Rightarrow> pyfloat" where
  "neg_float m = \<lparr>negative = True, magnitude = m\<rparr>"


section \<open>Example cache table\<close>

definition example_db :: "nat cache_db" where
  "example_db =
     [''a'' \<mapsto> \<lparr>graph_blob = 1, download_time = 900000, last_access = 900000\<rparr>,
      ''b'' \<mapsto> \<lparr>graph_blob = 2, download_time = 300000, last_access = 999000\<rparr>,
      ''c'' \<mapsto> \<lparr>graph_blob = 3, download_time = 500000, last_access = 950000\<rparr>]"


section \<open>Request models (models.py)\<close>

datatype node_type = SURVIVOR | PICKUP

text \<open>\<^verbatim>\<open>NodeData\<close>: \<^verbatim>\<open>urgency\<close> and \<^verbatim>\<open>count\<close> are optional and default to \<^verbatim>\<open>None\<close>.\<close>

record node_data =
  node_id :: int
  node_x :: real
  node_y :: real
  ntype :: node_type
  urgency :: "int option"
  count :: "int option"

text \<open>The model validator: only a survivor must carry both optional fields.\<close>

definition validate_data :: "node_data \<Rightarrow> py_error + node_data" where
  "validate_data self =
     (if ntype self = SURVIVOR \<and> (urgency self = None \<or> count self = None)
      then Inl ValueError else Inr self)"

text \<open>\<^verbatim>\<open>EdgeModification\<close>: the new state is an unconstrained string.\<close>

record edge_modification =
  em_u :: int
  em_v :: int
  em_key :: int
  em_state :: string


section \<open>Geometry (utils.py)\<close>

definition radians :: "real \<Rightarrow> real" where
  "radians d = d * pi / 180"

text \<open>The two-argument arctangent of the mathematics library.\<close>

definition atan2 :: "real \<Rightarrow> real \<Rightarrow> real" where
  "atan2 y x =
     (if 0 < x then arctan (y / x)
      else if x < 0 \<and> 0 \<le> y then arctan (y / x) + pi
      else if x < 0 then arctan (y / x) - pi
      else if 0 < y then pi / 2
      else if y < 0 then - (pi / 2)
      else 0)"

definition haversine_distance :: "real \<Rightarrow> real \<Rightarrow> real \<Rightarrow> real \<Rightarrow> real" where
  "haversine_distance lat1 lon1 lat2 lon2 =
     (let R = 6371000;
          phi1 = radians lat1;
          phi2 = radians lat2;
          dphi = radians (lat2 - lat1);
          dlambda = radians (lon2 - lon1);
          a = (sin (dphi / 2))\<^sup>2 + cos phi1 * cos phi2 * (sin (dlambda / 2))\<^sup>2
      in 2 * R * atan2 (sqrt a) (sqrt (1 - a)))"


section \<open>The road graph\<close>

text \<open>
  A networkx \<^verbatim>\<open>MultiDiGraph\<close>: nodes carry the coordinates \<^verbatim>\<open>x\<close> (longitude) and \<^verbatim>\<open>y\<close>
  (latitude); an edge is identified by \<open>(u, v, key)\<close> and carries an attribute dictionary,
  of which the four attributes the backend reads or writes are kept, with the names of
  the attributes it only copies. Edges are stored in insertion order, because the backend
  takes the first key between two nodes.
\<close>

type_synonym coord = "real \<times> real"
type_synonym edge_key = "int \<times> int \<times> int"

record edge_attrs =
  length_attr :: "real option"
  geometry :: "coord list option"
  state :: "string option"
  travel_cost :: "real option"
  other_attrs :: "string list"

record graph =
  g_nodes :: "int \<rightharpoonup> coord"
  g_edges :: "(edge_key \<times> edge_attrs) list"

definition get_edge_data :: "graph \<Rightarrow> int \<Rightarrow> int \<Rightarrow> int \<Rightarrow> edge_attrs option" where
  "get_edge_data G u v key = map_of (g_edges G) (u, v, key)"

definition has_edge_key :: "graph \<Rightarrow> int \<Rightarrow> int \<Rightarrow> int \<Rightarrow> bool" where
  "has_edge_key G u v key = (get_edge_data G u v key \<noteq> None)"

text \<open>The keys of \<^verbatim>\<open>G[u][v]\<close>, in insertion order.\<close>

definition adj_keys :: "graph \<Rightarrow> int \<Rightarrow> int \<Rightarrow> int list" where
  "adj_keys G u v = map (\<lambda>((a, b, k), d). k) (filter (\<lambda>((a, b, k), d). a = u \<and> b = v) (g_edges G))"

definition has_edge :: "graph \<Rightarrow> int \<Rightarrow> int \<Rightarrow> bool" where
  "has_edge G u v = (adj_keys G u v \<noteq> [])"

text \<open>\<^verbatim>\<open>G.nodes[n]\<close> followed by the reads of \<^verbatim>\<open>'x'\<close> and \<^verbatim>\<open>'y'\<close>.\<close>

definition node_xy :: "graph \<Rightarrow> int \<Rightarrow> py_error + coord" where
  "node_xy G n = (case g_nodes G n of None \<Rightarrow> Inl KeyError | Some c \<Rightarrow> Inr c)"

definition add_node :: "graph \<Rightarrow> int \<Rightarrow> coord \<Rightarrow> graph" where
  "add_node G n c = G\<lparr>g_nodes := (g_nodes G)(n \<mapsto> c)\<rparr>"

text \<open>\<^verbatim>\<open>dict.update\<close> on an attribute dictionary: attributes that are given overwrite.\<close>

definition update_attrs :: "edge_attrs \<Rightarrow> edge_attrs \<Rightarrow> edge_attrs" where
  "update_attrs old new =
     \<lparr>length_attr = (case length_attr new of None \<Rightarrow> length_attr old | Some l \<Rightarrow> Some l),
      geometry = (case geometry new of None \<Rightarrow> geometry old | Some g \<Rightarrow> Some g),
      state = (case state new of None \<Rightarrow> state old | Some s \<Rightarrow> Some s),
      travel_cost = (case travel_cost new of None \<Rightarrow> travel_cost old | Some c \<Rightarrow> Some c),
      other_attrs = other_attrs old @ filter (\<lambda>a. a \<notin> set (other_attrs old)) (other_attrs new)\<rparr>"

text \<open>\<^verbatim>\<open>G.add_edge(u, v, key, **attr)\<close>: a new edge is appended, an existing one updated.\<close>

fun add_edge_tab ::
  "(edge_key \<times> edge_attrs) list \<Rightarrow> edge_key \<Rightarrow> edge_attrs \<Rightarrow> (edge_key \<times> edge_attrs) list" where
  "add_edge_tab [] k attr = [(k, attr)]"
| "add_edge_tab ((k', d) # es) k attr =
     (if k' = k then (k', update_attrs d attr) # es else (k', d) # add_edge_tab es k attr)"

definition add_edge :: "graph \<Rightarrow> int \<Rightarrow> int \<Rightarrow> int \<Rightarrow> edge_attrs \<Rightarrow> graph" where
  "add_edge G u v key attr = G\<lparr>g_edges := add_edge_tab (g_edges G) (u, v, key) attr\<rparr>"

definition remove_edge :: "graph \<Rightarrow> int \<Rightarrow> int \<Rightarrow> int \<Rightarrow> graph" where
  "remove_edge G u v key = G\<lparr>g_edges := filter (\<lambda>(k, d). k \<noteq> (u, v, key)) (g_edges G)\<rparr>"

text \<open>
  \<^verbatim>\<open>set_edge_attributes(G, {(u, v, key): {"state": s}})\<close>: sets the attribute on the edge
  if the edge exists, and does nothing otherwise.
\<close>

definition set_edge_state :: "graph \<Rightarrow> edge_key \<Rightarrow> string \<Rightarrow> graph" where
  "set_edge_state G k s =
     G\<lparr>g_edges := map (\<lambda>(k', d). if k' = k then (k', d\<lparr>state := Some s\<rparr>) else (k', d)) (g_edges G)\<rparr>"


section \<open>Graph modification (utils.py)\<close>

subsection \<open>\<^verbatim>\<open>edit_edges\<close>\<close>

text \<open>The body of the loop of \<^verbatim>\<open>edit_edges\<close>, for one modification.\<close>

definition edit_edge :: "graph \<Rightarrow> edge_modification \<Rightarrow> graph" where
  "edit_edge G edge =
     (let G1 = (if has_edge_key G (em_u edge) (em_v edge) (em_key edge)
                then set_edge_state G (em_u edge, em_v edge, em_key edge) (em_state edge)
                else G)
      in if has_edge G1 (em_v edge) (em_u edge)
         then fold (\<lambda>k G'. set_edge_state G' (em_v edge, em_u edge, k) (em_state edge))
                   (adj_keys G1 (em_v edge) (em_u edge)) G1
         else G1)"

definition edit_edges :: "graph \<Rightarrow> edge_modification list \<Rightarrow> graph" where
  "edit_edges G edges = fold (\<lambda>edge G'. edit_edge G' edge) edges G"


subsection \<open>\<^verbatim>\<open>split_edge_at_point\<close>\<close>

text \<open>
  The curve operations of the shapely library that the split uses: \<^verbatim>\<open>line.project(p)\<close>,
  \<^verbatim>\<open>line.interpolate(d)\<close>, \<^verbatim>\<open>substring(line, a, b)\<close> and \<^verbatim>\<open>line.length\<close>. A curve is its
  list of coordinates.
\<close>

record shapely =
  project :: "coord list \<Rightarrow> coord \<Rightarrow> real"
  interpolate :: "coord list \<Rightarrow> real \<Rightarrow> coord"
  substring :: "coord list \<Rightarrow> real \<Rightarrow> real \<Rightarrow> coord list"
  line_length :: "coord list \<Rightarrow> real"

text \<open>
  The identifier of the inserted node,
  \<^verbatim>\<open>hash(f"{u}-{v}-{key}-{time()}") % 10000000 * -1\<close>,
  as a function of the value \<open>h\<close> of the string hash. In Python \<^verbatim>\<open>%\<close> and \<^verbatim>\<open>*\<close> associate
  to the left, and \<^verbatim>\<open>%\<close> with a positive modulus returns a value from 0 up to the modulus,
  as \<open>mod\<close> on \<^typ>\<open>int\<close> does.
\<close>

definition new_node_id :: "int \<Rightarrow> int" where
  "new_node_id h = h mod 10000000 * - 1"

text \<open>
  \<^verbatim>\<open>split_edge_at_point\<close>, with the hash value \<open>h\<close> of this call as an argument. The result
  is the returned identifier (\<^verbatim>\<open>None\<close> when the edge is absent) and the graph after the call.
\<close>

definition split_edge_at_point ::
  "shapely \<Rightarrow> int \<Rightarrow> graph \<Rightarrow> int \<Rightarrow> int \<Rightarrow> int \<Rightarrow> coord \<Rightarrow> py_error + (int option \<times> graph)" where
  "split_edge_at_point sh h G u v key point_coords =
     (case get_edge_data G u v key of
        None \<Rightarrow> Inr (None, G)
      | Some data \<Rightarrow>
         (case (case geometry data of
                  Some l \<Rightarrow> Inr l
                | None \<Rightarrow>
                    (case node_xy G u of Inl e \<Rightarrow> Inl e | Inr cu \<Rightarrow>
                     (case node_xy G v of Inl e \<Rightarrow> Inl e | Inr cv \<Rightarrow> Inr [cu, cv]))) of
            Inl e \<Rightarrow> Inl e
          | Inr line0 \<Rightarrow>
             (case node_xy G u of Inl e \<Rightarrow> Inl e | Inr (u_x, u_y) \<Rightarrow>
                if line0 = [] then Inl IndexError
                else
                  let (start_x, start_y) = hd line0;
                      dist_start = (u_x - start_x)\<^sup>2 + (u_y - start_y)\<^sup>2;
                      (end_x, end_y) = last line0;
                      dist_end = (u_x - end_x)\<^sup>2 + (u_y - end_y)\<^sup>2;
                      line = (if dist_end < dist_start then rev line0 else line0);
                      dist_along = project sh line point_coords;
                      new_id = new_node_id h;
                      new_point = interpolate sh line dist_along;
                      G1 = add_node G new_id new_point;
                      geom_u_new = substring sh line 0 dist_along;
                      geom_new_v = substring sh line dist_along (line_length sh line)
                  in (case node_xy G1 u of Inl e \<Rightarrow> Inl e | Inr (u_x1, u_y1) \<Rightarrow>
                        let len_1 = haversine_distance u_y1 u_x1 (snd new_point) (fst new_point);
                            attr1 = data\<lparr>length_attr := Some len_1, geometry := Some geom_u_new\<rparr>;
                            G2 = add_edge G1 u new_id 0 attr1
                        in (case node_xy G2 v of Inl e \<Rightarrow> Inl e | Inr (v_x, v_y) \<Rightarrow>
                              let len_2 = haversine_distance (snd new_point) (fst new_point) v_y v_x;
                                  attr2 = data\<lparr>length_attr := Some len_2, geometry := Some geom_new_v\<rparr>;
                                  G3 = add_edge G2 new_id v 0 attr2
                              in Inr (Some new_id, remove_edge G3 u v key))))))"


section \<open>Node processing and integration (utils.py)\<close>

subsection \<open>\<^verbatim>\<open>deduplicate_nodes\<close>\<close>

text \<open>
  The two statements of the merge. \<^verbatim>\<open>max\<close> with a \<^verbatim>\<open>None\<close> argument and \<^verbatim>\<open>+=\<close> with a
  \<^verbatim>\<open>None\<close> operand raise \<^verbatim>\<open>TypeError\<close>; a missing urgency of the incoming node is
  replaced by 0 before the comparison.
\<close>

definition merge_node :: "node_data \<Rightarrow> node_data \<Rightarrow> py_error + node_data" where
  "merge_node existing node =
     (case urgency existing of
        None \<Rightarrow> Inl TypeError
      | Some eu \<Rightarrow>
          let existing1 = existing\<lparr>urgency := Some (max eu (case urgency node of Some nu \<Rightarrow> nu | None \<Rightarrow> 0))\<rparr>
          in (case (count existing1, count node) of
                (Some ec, Some nc) \<Rightarrow> Inr (existing1\<lparr>count := Some (ec + nc)\<rparr>)
              | _ \<Rightarrow> Inl TypeError))"

text \<open>
  The inner loop over \<^verbatim>\<open>unique_nodes\<close>: the first kept node within 10 m takes the merge
  and ends the loop. The result is \<^verbatim>\<open>None\<close> when the loop ends with \<^verbatim>\<open>is_duplicate\<close> false,
  and the updated list otherwise.
\<close>

fun merge_into_first :: "node_data \<Rightarrow> node_data list \<Rightarrow> py_error + node_data list option" where
  "merge_into_first node [] = Inr None"
| "merge_into_first node (existing # rest) =
     (let dist = haversine_distance (node_y node) (node_x node) (node_y existing) (node_x existing)
      in if dist < 10
         then (case merge_node existing node of
                 Inl e \<Rightarrow> Inl e
               | Inr existing' \<Rightarrow> Inr (Some (existing' # rest)))
         else (case merge_into_first node rest of
                 Inl e \<Rightarrow> Inl e
               | Inr None \<Rightarrow> Inr None
               | Inr (Some rest') \<Rightarrow> Inr (Some (existing # rest'))))"

text \<open>The body of the outer loop, and the outer loop over the input.\<close>

definition dedup_step :: "node_data list \<Rightarrow> node_data \<Rightarrow> py_error + node_data list" where
  "dedup_step unique_nodes node =
     (case merge_into_first node unique_nodes of
        Inl e \<Rightarrow> Inl e
      | Inr None \<Rightarrow> Inr (unique_nodes @ [node])
      | Inr (Some unique_nodes') \<Rightarrow> Inr unique_nodes')"

fun dedup_loop :: "node_data list \<Rightarrow> node_data list \<Rightarrow> py_error + node_data list" where
  "dedup_loop unique_nodes [] = Inr unique_nodes"
| "dedup_loop unique_nodes (node # nodes) =
     (case dedup_step unique_nodes node of
        Inl e \<Rightarrow> Inl e
      | Inr unique_nodes' \<Rightarrow> dedup_loop unique_nodes' nodes)"

definition deduplicate_nodes :: "node_data list \<Rightarrow> py_error + node_data list" where
  "deduplicate_nodes nodes = dedup_loop [] nodes"


subsection \<open>\<^verbatim>\<open>integrate_nodes_into_graph\<close>\<close>

record snapped_node =
  graph_id :: int
  req :: node_data

text \<open>
  Python truth of the result of \<^verbatim>\<open>get_edge_data\<close>: \<^verbatim>\<open>None\<close> and the empty dictionary are
  false.
\<close>

definition edge_data_truthy :: "edge_attrs option \<Rightarrow> bool" where
  "edge_data_truthy d =
     (case d of
        None \<Rightarrow> False
      | Some a \<Rightarrow> \<not> (length_attr a = None \<and> geometry a = None \<and> state a = None
                     \<and> travel_cost a = None \<and> other_attrs a = []))"

text \<open>The state of the nearest edge, as the lines before the distance computation find it.\<close>

definition nearest_edge_state :: "graph \<Rightarrow> int \<Rightarrow> int \<Rightarrow> int \<Rightarrow> string" where
  "nearest_edge_state G u v key =
     (let d1 = get_edge_data G u v key;
          edge_data = (if edge_data_truthy d1 then d1 else get_edge_data G v u key);
          edge_data =
            (if edge_data_truthy edge_data then edge_data
             else if has_edge G u v then get_edge_data G u v (hd (adj_keys G u v))
             else if has_edge G v u then get_edge_data G v u (hd (adj_keys G v u))
             else None)
      in case edge_data of
           None \<Rightarrow> ''clear''
         | Some d \<Rightarrow> (case state d of None \<Rightarrow> ''clear'' | Some s \<Rightarrow> s))"

text \<open>
  The body of the loop for one request. \<open>nearest\<close> is \<^verbatim>\<open>nearest_edges\<close> on the undirected
  copy taken before the loop; \<open>str_hash u v key n\<close> is the value of the string hash in the
  \<open>n\<close>-th call of the split, the call number standing for the clock. The result is the
  graph after the iteration, the number of split calls so far, and the recorded mapping.
\<close>

definition integrate_node ::
  "shapely \<Rightarrow> (real \<Rightarrow> real \<Rightarrow> edge_key) \<Rightarrow> (int \<Rightarrow> int \<Rightarrow> int \<Rightarrow> nat \<Rightarrow> int) \<Rightarrow>
   graph \<Rightarrow> nat \<Rightarrow> node_data \<Rightarrow> py_error + (graph \<times> nat \<times> snapped_node)" where
  "integrate_node sh nearest str_hash G n node_req =
     (let (u, v, key) = nearest (node_x node_req) (node_y node_req);
          st = nearest_edge_state G u v key
      in case node_xy G u of Inl e \<Rightarrow> Inl e | Inr (u_x, u_y) \<Rightarrow>
         (case node_xy G v of Inl e \<Rightarrow> Inl e | Inr (v_x, v_y) \<Rightarrow>
            let dist_u = haversine_distance (node_y node_req) (node_x node_req) u_y u_x;
                dist_v = haversine_distance (node_y node_req) (node_x node_req) v_y v_x
            in if dist_u < 50 then Inr (G, n, \<lparr>graph_id = u, req = node_req\<rparr>)
               else if dist_v < 50 then Inr (G, n, \<lparr>graph_id = v, req = node_req\<rparr>)
               else if st = ''blocked''
               then (if dist_u < dist_v then Inr (G, n, \<lparr>graph_id = u, req = node_req\<rparr>)
                     else Inr (G, n, \<lparr>graph_id = v, req = node_req\<rparr>))
               else
                 (case split_edge_at_point sh (str_hash u v key n) G u v key
                         (node_x node_req, node_y node_req) of
                    Inl e \<Rightarrow> Inl e
                  | Inr (new_id, G1) \<Rightarrow>
                     (case (if has_edge G1 v u
                            then split_edge_at_point sh
                                   (str_hash v u (hd (adj_keys G1 v u)) (Suc n)) G1 v u
                                   (hd (adj_keys G1 v u)) (node_x node_req, node_y node_req)
                            else Inr (None, G1)) of
                        Inl e \<Rightarrow> Inl e
                      | Inr (rev_id, G2) \<Rightarrow>
                          let final_node_id =
                                (case new_id of None \<Rightarrow> u | Some i \<Rightarrow> if i = 0 then u else i)
                          in Inr (G2, Suc (Suc n), \<lparr>graph_id = final_node_id, req = node_req\<rparr>)))))"




subsection \<open>Distance predicate and example requests\<close>

text \<open>The test of the inner loop of \<^verbatim>\<open>deduplicate_nodes\<close>.\<close>

definition within_10m :: "node_data \<Rightarrow> node_data \<Rightarrow> bool" where
  "within_10m node existing \<longleftrightarrow>
     haversine_distance (node_y node) (node_x node) (node_y existing) (node_x existing) < 10"

text \<open>
  Example requests on the meridian of longitude 0: \<open>degrees_north m\<close> is the latitude
  that lies \<open>m\<close> metres north of the equator on the sphere of the distance function.
\<close>

definition degrees_north :: "real \<Rightarrow> real" where
  "degrees_north m = m * 180 / (6371000 * pi)"

definition survivor_at :: "int \<Rightarrow> real \<Rightarrow> int \<Rightarrow> int \<Rightarrow> node_data" where
  "survivor_at i m u c =
     \<lparr>node_id = i, node_x = 0, node_y = degrees_north m, ntype = SURVIVOR,
      urgency = Some u, count = Some c\<rparr>"

definition pickup_at :: "int \<Rightarrow> real \<Rightarrow> node_data" where
  "pickup_at i m =
     \<lparr>node_id = i, node_x = 0, node_y = degrees_north m, ntype = PICKUP,
      urgency = None, count = None\<rparr>"

text \<open>
  A graph of two nodes 1000 m apart on the meridian, with one edge from 1 to 2 and two
  parallel edges from 2 to 1, and a modification that blocks the edge from 1 to 2.
\<close>

definition clear_attrs :: "real \<Rightarrow> edge_attrs" where
  "clear_attrs l =
     \<lparr>length_attr = Some l, geometry = None, state = None, travel_cost = None,
      other_attrs = [''osmid'']\<rparr>"

definition two_way_graph :: graph where
  "two_way_graph =
     \<lparr>g_nodes = [1 \<mapsto> (0, degrees_north 0), 2 \<mapsto> (0, degrees_north 1000)],
      g_edges = [((1, 2, 0), clear_attrs 1000),
                 ((2, 1, 0), clear_attrs 1000),
                 ((2, 1, 1), (clear_attrs 1500)\<lparr>state := Some ''partial''\<rparr>)]\<rparr>"

definition block_1_2 :: edge_modification where
  "block_1_2 = \<lparr>em_u = 1, em_v = 2, em_key = 0, em_state = ''blocked''\<rparr>"

text \<open>
  The curve operations of shapely on a straight segment of two points, in the plane of
  the coordinates; other curves do not occur in the examples.
\<close>

definition segment_length :: "coord list \<Rightarrow> real" where
  "segment_length l =
     (case l of
        [(x1, y1), (x2, y2)] \<Rightarrow> sqrt ((x2 - x1)\<^sup>2 + (y2 - y1)\<^sup>2)
      | _ \<Rightarrow> 0)"

definition segment_interpolate :: "coord list \<Rightarrow> real \<Rightarrow> coord" where
  "segment_interpolate l d =
     (case l of
        [(x1, y1), (x2, y2)] \<Rightarrow>
          (let len = segment_length l;
               t = (if len = 0 then 0 else max 0 (min 1 (d / len)))
           in (x1 + t * (x2 - x1), y1 + t * (y2 - y1)))
      | _ \<Rightarrow> (0, 0))"

definition segment_project :: "coord list \<Rightarrow> coord \<Rightarrow> real" where
  "segment_project l p =
     (case l of
        [(x1, y1), (x2, y2)] \<Rightarrow>
          (let len = segment_length l
           in if len = 0 then 0
              else max 0 (min len (((fst p - x1) * (x2 - x1) + (snd p - y1) * (y2 - y1)) / len)))
      | _ \<Rightarrow> 0)"

definition segment_shapely :: shapely where
  "segment_shapely =
     \<lparr>project = segment_project,
      interpolate = segment_interpolate,
      substring = (\<lambda>l a b. [segment_interpolate l a, segment_interpolate l b]),
      line_length = segment_length\<rparr>"

text \<open>The nearest-edge search on a graph whose only road is the one between 1 and 2.\<close>

definition nearest_1_2 :: "graph \<Rightarrow> real \<Rightarrow> real \<Rightarrow> edge_key" where
  "nearest_1_2 G x y = (1, 2, 0)"


section \<open>Travel costs (main.py, \<^verbatim>\<open>infer_routes\<close>)\<close>

text \<open>The multiplier of an edge state; every state other than the two named ones counts 1.\<close>

definition state_multiplier :: "string \<Rightarrow> real" where
  "state_multiplier st = (if st = ''blocked'' then 10000 else if st = ''partial'' then 5 else 1)"

text \<open>\<^verbatim>\<open>d.get('length', 1)\<close> and \<^verbatim>\<open>d.get('state', 'clear')\<close>.\<close>

definition get_length :: "edge_attrs \<Rightarrow> real" where
  "get_length d = (case length_attr d of None \<Rightarrow> 1 | Some l \<Rightarrow> l)"

definition get_state :: "edge_attrs \<Rightarrow> string" where
  "get_state d = (case state d of None \<Rightarrow> ''clear'' | Some s \<Rightarrow> s)"

text \<open>The loop of the two fallback branches: every edge gets length times multiplier.\<close>

definition standard_weights :: "graph \<Rightarrow> graph" where
  "standard_weights G =
     G\<lparr>g_edges := map (\<lambda>(k, d). (k, d\<lparr>travel_cost :=
                        Some (get_length d * state_multiplier (get_state d))\<rparr>)) (g_edges G)\<rparr>"

text \<open>
  The loop of the model branch over \<^verbatim>\<open>ordered_edges\<close>, which lists every edge of the
  graph in the order of \<^verbatim>\<open>G.edges\<close>. Reading \<^verbatim>\<open>probs[i]\<close> beyond the end of the vector
  raises \<^verbatim>\<open>IndexError\<close>; the edges before that one have been written already.
\<close>

fun gnn_weights ::
  "(edge_key \<times> edge_attrs) list \<Rightarrow> real list \<Rightarrow> py_error option \<times> (edge_key \<times> edge_attrs) list" where
  "gnn_weights [] probs = (None, [])"
| "gnn_weights ((k, d) # es) [] = (Some IndexError, (k, d) # es)"
| "gnn_weights ((k, d) # es) (prob # probs) =
     (let base_mult = state_multiplier (get_state d);
          neural_discount = 1 - prob * (8 / 10);
          d' = d\<lparr>travel_cost := Some (get_length d * base_mult * neural_discount)\<rparr>;
          (err, es') = gnn_weights es probs
      in (err, (k, d') # es'))"

text \<open>
  The weighting step. \<open>rescunet_model\<close> is \<^verbatim>\<open>None\<close> when no model is loaded; otherwise it
  stands for feature extraction, the forward pass and the sigmoid, and gives the vector of
  probabilities or raises. Any exception in the model branch leads to the fallback loop.
\<close>

definition assign_travel_costs :: "(graph \<Rightarrow> py_error + real list) option \<Rightarrow> graph \<Rightarrow> graph" where
  "assign_travel_costs rescunet_model G_routing =
     (case rescunet_model of
        None \<Rightarrow> standard_weights G_routing
      | Some model \<Rightarrow>
          (case model G_routing of
             Inl e \<Rightarrow> standard_weights G_routing
           | Inr probs \<Rightarrow>
               (case gnn_weights (g_edges G_routing) probs of
                  (None, es) \<Rightarrow> G_routing\<lparr>g_edges := es\<rparr>
                | (Some e, es) \<Rightarrow> standard_weights (G_routing\<lparr>g_edges := es\<rparr>))))"


section \<open>Dispatch (python_router.py)\<close>

text \<open>
  The two networkx calls are parameters: \<open>spl a b\<close> is
  \<^verbatim>\<open>shortest_path_length(G, a, b, weight='travel_cost')\<close> and \<open>sp a b\<close> is
  \<^verbatim>\<open>shortest_path(G, a, b, weight='travel_cost')\<close>; each returns its value or raises.
\<close>

type_synonym path_length_fn = "int \<Rightarrow> int \<Rightarrow> py_error + real"
type_synonym path_fn = "int \<Rightarrow> int \<Rightarrow> py_error + int list"

record vehicle =
  vehicle_id :: nat
  current_node :: int
  path :: "int list"
  total_distance :: real

text \<open>The four variables of the search; \<open>None\<close> is the initial score \<^verbatim>\<open>float('inf')\<close>.\<close>

record best =
  best_global_score :: "real option"
  best_vehicle_idx :: int
  best_survivor_idx :: int
  best_segment_dist :: real

definition initial_best :: best where
  "initial_best =
     \<lparr>best_global_score = None, best_vehicle_idx = - 1, best_survivor_idx = - 1,
      best_segment_dist = 0\<rparr>"

definition less_than_best :: "real \<Rightarrow> real option \<Rightarrow> bool" where
  "less_than_best s b = (case b of None \<Rightarrow> True | Some s' \<Rightarrow> s < s')"

text \<open>Python list indexing and \<^verbatim>\<open>list.pop(i)\<close>; a negative index counts from the end.\<close>

definition py_position :: "'a list \<Rightarrow> int \<Rightarrow> py_error + nat" where
  "py_position xs i =
     (if 0 \<le> i \<and> i < int (length xs) then Inr (nat i)
      else if i < 0 \<and> - int (length xs) \<le> i then Inr (nat (int (length xs) + i))
      else Inl IndexError)"

definition py_pop :: "'a list \<Rightarrow> int \<Rightarrow> py_error + 'a list" where
  "py_pop xs i =
     (case py_position xs i of Inl e \<Rightarrow> Inl e | Inr j \<Rightarrow> Inr (take j xs @ drop (Suc j) xs))"

text \<open>
  The inner loop over the remaining survivors for one vehicle. Only \<^verbatim>\<open>NetworkXNoPath\<close> is
  caught. A missing urgency or count raises \<^verbatim>\<open>TypeError\<close>, and a zero denominator
  raises \<^verbatim>\<open>ZeroDivisionError\<close>.
\<close>

fun scan_survivors ::
  "path_length_fn \<Rightarrow> vehicle \<Rightarrow> int \<Rightarrow> snapped_node list \<Rightarrow> int \<Rightarrow> best \<Rightarrow> py_error + best" where
  "scan_survivors spl vehicle v_idx [] s_idx b = Inr b"
| "scan_survivors spl vehicle v_idx (survivor # rest) s_idx b =
     (if current_node vehicle = graph_id survivor
      then scan_survivors spl vehicle v_idx rest (s_idx + 1) b
      else
        (case spl (current_node vehicle) (graph_id survivor) of
           Inl e \<Rightarrow>
             if e = NetworkXNoPath then scan_survivors spl vehicle v_idx rest (s_idx + 1) b
             else Inl e
         | Inr path_dist \<Rightarrow>
             (let arrival_time = total_distance vehicle + path_dist
              in case (urgency (req survivor), count (req survivor)) of
                   (Some urg, Some cnt) \<Rightarrow>
                     if urg\<^sup>2 + cnt = 0 then Inl ZeroDivisionError
                     else
                       let score = arrival_time / real_of_int (urg\<^sup>2 + cnt)
                       in scan_survivors spl vehicle v_idx rest (s_idx + 1)
                            (if less_than_best score (best_global_score b)
                             then \<lparr>best_global_score = Some score, best_vehicle_idx = v_idx,
                                   best_survivor_idx = s_idx, best_segment_dist = path_dist\<rparr>
                             else b)
                 | _ \<Rightarrow> Inl TypeError)))"

text \<open>The outer loop over the vehicles.\<close>

fun scan_vehicles ::
  "path_length_fn \<Rightarrow> vehicle list \<Rightarrow> int \<Rightarrow> snapped_node list \<Rightarrow> best \<Rightarrow> py_error + best" where
  "scan_vehicles spl [] v_idx remaining_survivors b = Inr b"
| "scan_vehicles spl (vehicle # rest) v_idx remaining_survivors b =
     (case scan_survivors spl vehicle v_idx remaining_survivors 0 b of
        Inl e \<Rightarrow> Inl e
      | Inr b' \<Rightarrow> scan_vehicles spl rest (v_idx + 1) remaining_survivors b')"

text \<open>
  One pass of the \<^verbatim>\<open>while\<close> loop: \<open>None\<close> is the \<^verbatim>\<open>break\<close>, otherwise the vehicles and
  the remaining survivors after the assignment.
\<close>

definition dispatch_step ::
  "path_length_fn \<Rightarrow> path_fn \<Rightarrow> vehicle list \<Rightarrow> snapped_node list \<Rightarrow>
   py_error + (vehicle list \<times> snapped_node list) option" where
  "dispatch_step spl sp pickup_vec remaining_survivors =
     (case scan_vehicles spl pickup_vec 0 remaining_survivors initial_best of
        Inl e \<Rightarrow> Inl e
      | Inr b \<Rightarrow>
          if best_vehicle_idx b = - 1 then Inr None
          else
            (case py_position pickup_vec (best_vehicle_idx b) of Inl e \<Rightarrow> Inl e | Inr vi \<Rightarrow>
             (case py_position remaining_survivors (best_survivor_idx b) of Inl e \<Rightarrow> Inl e | Inr si \<Rightarrow>
                let winner_vehicle = pickup_vec ! vi;
                    target_survivor = remaining_survivors ! si
                in (case sp (current_node winner_vehicle) (graph_id target_survivor) of
                      Inl e \<Rightarrow> Inl e
                    | Inr path_segment \<Rightarrow>
                        let winner_vehicle' = winner_vehicle
                              \<lparr>path := path winner_vehicle
                                         @ (if length path_segment > 1 then tl path_segment else []),
                               current_node := graph_id target_survivor,
                               total_distance := total_distance winner_vehicle + best_segment_dist b\<rparr>
                        in (case py_pop remaining_survivors (best_survivor_idx b) of
                              Inl e \<Rightarrow> Inl e
                            | Inr remaining' \<Rightarrow>
                                Inr (Some (pickup_vec[vi := winner_vehicle'], remaining')))))))"






text \<open>\<^verbatim>\<open>solve_routes\<close>: the vehicles, the assignment loop, and the return legs.\<close>

definition initial_vehicles :: "int list \<Rightarrow> vehicle list" where
  "initial_vehicles pickups_ids =
     map (\<lambda>(i, pid). \<lparr>vehicle_id = i, current_node = pid, path = [pid], total_distance = 0\<rparr>)
         (enumerate 0 pickups_ids)"



subsection \<open>The cost model in the words of the specification\<close>

text \<open>
  The discount of edge number \<open>i\<close>: \<open>1 - 0.8 p\<close> when the model is loaded, its call
  succeeds and it gives a probability \<open>p\<close> for every edge; 1 otherwise.
\<close>

definition discount :: "(graph \<Rightarrow> py_error + real list) option \<Rightarrow> graph \<Rightarrow> nat \<Rightarrow> real" where
  "discount rescunet_model G i =
     (case rescunet_model of
        None \<Rightarrow> 1
      | Some model \<Rightarrow>
          (case model G of
             Inl e \<Rightarrow> 1
           | Inr probs \<Rightarrow> if length (g_edges G) \<le> length probs then 1 - (8 / 10) * probs ! i else 1))"

text \<open>Two models for the examples: one gives three probabilities, one raises.\<close>

definition half_model :: "graph \<Rightarrow> py_error + real list" where
  "half_model G = Inr [1 / 2, 1 / 4, 1 / 2]"

definition failing_model :: "graph \<Rightarrow> py_error + real list" where
  "failing_model G = Inl ValueError"


subsection \<open>The dispatch rule in the words of the specification\<close>

text \<open>
  The score of a pair, \<open>(vehicle.total_distance + path_distance) / (urgency\<^sup>2 + count)\<close>,
  and the pairs that are considered: the vehicle is not at the survivor's node and the
  length query returns a distance.
\<close>

definition score :: "vehicle \<Rightarrow> snapped_node \<Rightarrow> real \<Rightarrow> real" where
  "score vehicle survivor path_distance =
     (total_distance vehicle + path_distance)
       / real_of_int ((case urgency (req survivor) of Some u \<Rightarrow> u | None \<Rightarrow> 0)\<^sup>2
                      + (case count (req survivor) of Some c \<Rightarrow> c | None \<Rightarrow> 0))"

definition reachable_pair :: "path_length_fn \<Rightarrow> vehicle \<Rightarrow> snapped_node \<Rightarrow> real \<Rightarrow> bool" where
  "reachable_pair spl vehicle survivor d \<longleftrightarrow>
     current_node vehicle \<noteq> graph_id survivor
     \<and> spl (current_node vehicle) (graph_id survivor) = Inr d"

text \<open>
  The invariant of the search over the pairs \<open>P\<close> looked at so far: either nothing has
  been stored and no pair of \<open>P\<close> is reachable, or the stored pair is a reachable pair of
  \<open>P\<close> whose score is the stored score and is least among the reachable pairs of \<open>P\<close>.
\<close>

definition best_inv ::
  "path_length_fn \<Rightarrow> vehicle list \<Rightarrow> snapped_node list \<Rightarrow> (nat \<times> nat) set \<Rightarrow> best \<Rightarrow> bool" where
  "best_inv spl vs ss P b \<longleftrightarrow>
     (best_vehicle_idx b = - 1 \<and> best_global_score b = None
        \<and> (\<forall>(vj, sj) \<in> P. \<forall>d. \<not> reachable_pair spl (vs ! vj) (ss ! sj) d))
     \<or> (\<exists>vi si. (vi, si) \<in> P \<and> best_vehicle_idx b = int vi \<and> best_survivor_idx b = int si
           \<and> reachable_pair spl (vs ! vi) (ss ! si) (best_segment_dist b)
           \<and> best_global_score b = Some (score (vs ! vi) (ss ! si) (best_segment_dist b))
           \<and> (\<forall>(vj, sj) \<in> P. \<forall>d. reachable_pair spl (vs ! vj) (ss ! sj) d \<longrightarrow>
                 score (vs ! vi) (ss ! si) (best_segment_dist b) \<le> score (vs ! vj) (ss ! sj) d))"

text \<open>
  The dispatch scenario: pickup node 10; survivor nodes 1 and 2, each 100 from the pickup
  and 150 from each other; node 3 is cut off from all other nodes.
\<close>

definition survivor_node :: "int \<Rightarrow> int \<Rightarrow> int \<Rightarrow> snapped_node" where
  "survivor_node g u c = \<lparr>graph_id = g, req = survivor_at g 0 u c\<rparr>"

definition scenario_spl :: path_length_fn where
  "scenario_spl a b =
     (if a = b then Inr 0
      else if a = 3 \<or> b = 3 then Inl NetworkXNoPath
      else if (a = 1 \<and> b = 2) \<or> (a = 2 \<and> b = 1) then Inr 150
      else Inr 100)"

definition scenario_sp :: path_fn where
  "scenario_sp a b =
     (if a = b then Inr [a]
      else if a = 3 \<or> b = 3 then Inl NetworkXNoPath
      else Inr [a, b])"

definition scenario_survivors :: "snapped_node list" where
  "scenario_survivors = [survivor_node 2 1 10, survivor_node 1 5 1]"


section \<open>Properties of the cache\<close>

text \<open>
  Claim C9. After the sweep runs at time \<open>now\<close>, a row whose last access is more than
  24 hours old, or whose download is more than 7 days old, is gone from the table, and a
  row that is within both limits is kept unchanged.
\<close>

theorem cleanup_cache_ttl:
  "(db k = Some row \<and>
      (now - last_access row > 24 * 3600 \<or> now - download_time row > 7 * 24 * 3600)
        \<longrightarrow> cleanup_cache now db k = None)
   \<and> (db k = Some row \<and>
      \<not> now - last_access row > 24 * 3600 \<and> \<not> now - download_time row > 7 * 24 * 3600
        \<longrightarrow> cleanup_cache now db k = Some row)
   \<and> (db k = None \<longrightarrow> cleanup_cache now db k = None)"
  by (auto simp: cleanup_cache_def ACCESS_TTL_SECONDS_def DOWNLOAD_TTL_SECONDS_def Let_def)

text \<open>
  The theorem at a concrete table, swept at time 1000000: row \<open>a\<close> was read 100000 s ago
  (stale access), row \<open>b\<close> was downloaded 700000 s ago (stale download), row \<open>c\<close> is fresh.
\<close>

theorem cleanup_cache_ttl_witness:
  "cleanup_cache 1000000 example_db ''a'' = None
   \<and> cleanup_cache 1000000 example_db ''b'' = None
   \<and> cleanup_cache 1000000 example_db ''c''
       = Some \<lparr>graph_blob = 3, download_time = 500000, last_access = 950000\<rparr>"
  using cleanup_cache_ttl [of example_db "''a''"
          "\<lparr>graph_blob = 1, download_time = 900000, last_access = 900000\<rparr>" 1000000]
        cleanup_cache_ttl [of example_db "''b''"
          "\<lparr>graph_blob = 2, download_time = 300000, last_access = 999000\<rparr>" 1000000]
        cleanup_cache_ttl [of example_db "''c''"
          "\<lparr>graph_blob = 3, download_time = 500000, last_access = 950000\<rparr>" 1000000]
  by (simp add: example_db_def)



section \<open>Properties of edge editing\<close>

lemma map_of_state_map:
  "map_of (map (\<lambda>(k', d). if k' = k then (k', d\<lparr>state := Some s\<rparr>) else (k', d)) es) k' =
     (if k' = k then map_option (\<lambda>d. d\<lparr>state := Some s\<rparr>) (map_of es k') else map_of es k')"
  by (induction es) auto

lemma get_edge_data_set_edge_state:
  "get_edge_data (set_edge_state G k s) a b c =
     (if (a, b, c) = k then map_option (\<lambda>d. d\<lparr>state := Some s\<rparr>) (get_edge_data G a b c)
      else get_edge_data G a b c)"
  by (simp add: get_edge_data_def set_edge_state_def map_of_state_map)

lemma keys_state_map:
  "map (\<lambda>((a, b, k), d). k) (filter (\<lambda>((a, b, k), d). a = u \<and> b = v)
      (map (\<lambda>(k', d). if k' = k then (k', d\<lparr>state := Some s\<rparr>) else (k', d)) es))
   = map (\<lambda>((a, b, k), d). k) (filter (\<lambda>((a, b, k), d). a = u \<and> b = v) es)"
  by (induction es) (auto split: if_splits)

lemma adj_keys_set_edge_state: "adj_keys (set_edge_state G k s) a b = adj_keys G a b"
  by (simp add: adj_keys_def set_edge_state_def keys_state_map)

lemma mem_adj_keys: "k \<in> set (adj_keys G u v) \<longleftrightarrow> has_edge_key G u v k"
  unfolding adj_keys_def has_edge_key_def get_edge_data_def
  by (induction "g_edges G" arbitrary: G) (force simp: map_of_eq_None_iff image_iff)+

lemma get_edge_data_fold_state:
  "get_edge_data (fold (\<lambda>k G'. set_edge_state G' (v, u, k) s) ks G) a b c =
     (if a = v \<and> b = u \<and> c \<in> set ks
      then map_option (\<lambda>d. d\<lparr>state := Some s\<rparr>) (get_edge_data G a b c)
      else get_edge_data G a b c)"
  by (induction ks arbitrary: G) (auto simp: get_edge_data_set_edge_state option.map_comp comp_def)

lemma edit_edge_unfold:
  "edit_edge G m =
     fold (\<lambda>k G'. set_edge_state G' (em_v m, em_u m, k) (em_state m))
       (adj_keys (set_edge_state G (em_u m, em_v m, em_key m) (em_state m)) (em_v m) (em_u m))
       (set_edge_state G (em_u m, em_v m, em_key m) (em_state m))"
proof -
  have noop: "set_edge_state G (em_u m, em_v m, em_key m) (em_state m) = G"
    if "\<not> has_edge_key G (em_u m) (em_v m) (em_key m)"
  proof -
    have "\<forall>(k', d) \<in> set (g_edges G). k' \<noteq> (em_u m, em_v m, em_key m)"
      using that unfolding has_edge_key_def get_edge_data_def
      by (auto simp: map_of_eq_None_iff image_iff)
    then have "map (\<lambda>(k', d). if k' = (em_u m, em_v m, em_key m)
                 then (k', d\<lparr>state := Some (em_state m)\<rparr>) else (k', d)) (g_edges G) = g_edges G"
      by (intro map_idI) auto
    then show ?thesis by (simp add: set_edge_state_def)
  qed
  show ?thesis
    by (cases "has_edge_key G (em_u m) (em_v m) (em_key m)")
       (simp_all add: edit_edge_def Let_def has_edge_def noop)
qed

lemma get_edge_data_edit_edge:
  "get_edge_data (edit_edge G m) a b c =
     (if (a = em_u m \<and> b = em_v m \<and> c = em_key m) \<or> (a = em_v m \<and> b = em_u m)
      then map_option (\<lambda>d. d\<lparr>state := Some (em_state m)\<rparr>) (get_edge_data G a b c)
      else get_edge_data G a b c)"
proof -
  define upd where "upd = (\<lambda>d::edge_attrs. d\<lparr>state := Some (em_state m)\<rparr>)"
  define G1 where "G1 = set_edge_state G (em_u m, em_v m, em_key m) (em_state m)"
  define P where "P \<longleftrightarrow> a = em_u m \<and> b = em_v m \<and> c = em_key m"
  define Q where "Q \<longleftrightarrow> a = em_v m \<and> b = em_u m"
  have g1: "get_edge_data G1 a b c =
      (if P then map_option upd (get_edge_data G a b c) else get_edge_data G a b c)"
    unfolding G1_def P_def upd_def by (simp add: get_edge_data_set_edge_state)
  have idem: "map_option upd (map_option upd x) = map_option upd x" for x
    unfolding upd_def by (cases x) simp_all
  have fold_eq: "get_edge_data (edit_edge G m) a b c =
      (if Q \<and> c \<in> set (adj_keys G1 (em_v m) (em_u m))
       then map_option upd (get_edge_data G1 a b c) else get_edge_data G1 a b c)"
    unfolding edit_edge_unfold G1_def [symmetric] Q_def upd_def
    by (simp only: get_edge_data_fold_state conj_assoc)
  have none: "get_edge_data G1 a b c = None" if "Q" "c \<notin> set (adj_keys G1 (em_v m) (em_u m))"
    using that unfolding Q_def by (simp add: mem_adj_keys has_edge_key_def)
  have f: "get_edge_data (edit_edge G m) a b c =
      (if Q then map_option upd (get_edge_data G1 a b c) else get_edge_data G1 a b c)"
  proof (cases "Q \<and> c \<notin> set (adj_keys G1 (em_v m) (em_u m))")
    case True
    then have "get_edge_data G1 a b c = None" using none by blast
    with True show ?thesis unfolding fold_eq by simp
  next
    case False
    then show ?thesis unfolding fold_eq by (cases Q) simp_all
  qed
  have "get_edge_data (edit_edge G m) a b c =
      (if P \<or> Q then map_option upd (get_edge_data G a b c) else get_edge_data G a b c)"
    unfolding f g1 by (cases P; cases Q) (simp_all add: idem)
  then show ?thesis
    unfolding P_def Q_def upd_def .
qed

lemma edit_edges_snoc: "edit_edges G (ms @ [m]) = edit_edge (edit_edges G ms) m"
  by (simp add: edit_edges_def)

text \<open>
  Claim C6. Right after \<^verbatim>\<open>edit_edges\<close> has applied a modification \<open>m\<close> to an existing
  edge \<open>(u, v, k)\<close>, that edge and every edge \<open>(v, u, k')\<close> in the reverse direction carry
  the state of \<open>m\<close>; no edge is added or removed.
\<close>

theorem edit_edges_reverse_symmetric:
  assumes "has_edge_key (edit_edges G ms) (em_u m) (em_v m) (em_key m)"
  shows "map_option state (get_edge_data (edit_edges G (ms @ [m])) (em_u m) (em_v m) (em_key m))
           = Some (Some (em_state m))
         \<and> (\<forall>k'. has_edge_key (edit_edges G ms) (em_v m) (em_u m) k' \<longrightarrow>
               map_option state (get_edge_data (edit_edges G (ms @ [m])) (em_v m) (em_u m) k')
                 = Some (Some (em_state m)))
         \<and> (\<forall>a b c. has_edge_key (edit_edges G (ms @ [m])) a b c
                      = has_edge_key (edit_edges G ms) a b c)"
  using assms
  by (auto simp: edit_edges_snoc get_edge_data_edit_edge has_edge_key_def)


theorem edit_edges_reverse_symmetric_witness:
  "has_edge_key (edit_edges two_way_graph []) 1 2 0
   \<and> has_edge_key (edit_edges two_way_graph []) 2 1 0
   \<and> has_edge_key (edit_edges two_way_graph []) 2 1 1
   \<and> map_option state (get_edge_data (edit_edges two_way_graph [block_1_2]) 1 2 0)
        = Some (Some ''blocked'')
   \<and> map_option state (get_edge_data (edit_edges two_way_graph [block_1_2]) 2 1 0)
        = Some (Some ''blocked'')
   \<and> map_option state (get_edge_data (edit_edges two_way_graph [block_1_2]) 2 1 1)
        = Some (Some ''blocked'')"
proof -
  have e: "has_edge_key (edit_edges two_way_graph []) (em_u block_1_2) (em_v block_1_2)
             (em_key block_1_2)"
    by (simp add: edit_edges_def has_edge_key_def get_edge_data_def two_way_graph_def
          block_1_2_def)
  have r0: "has_edge_key (edit_edges two_way_graph []) 2 1 0"
    and r1: "has_edge_key (edit_edges two_way_graph []) 2 1 1"
    by (simp_all add: edit_edges_def has_edge_key_def get_edge_data_def two_way_graph_def)
  from edit_edges_reverse_symmetric [OF e] e r0 r1 show ?thesis
    by (simp add: block_1_2_def)
qed

section \<open>Properties of the distance function\<close>

text \<open>
  Between two points of the same longitude whose latitudes differ by less than 180
  degrees, the distance is the arc of the meridian between them.
\<close>

lemma atan2_sin_cos:
  assumes "\<bar>t\<bar> < pi / 2"
  shows "atan2 (sqrt ((sin t)\<^sup>2)) (sqrt (1 - (sin t)\<^sup>2)) = \<bar>t\<bar>"
proof -
  have c: "0 < cos t" using assms by (intro cos_gt_zero_pi) auto
  have c': "0 < cos \<bar>t\<bar>" using c by (simp add: abs_if)
  have "1 - (sin t)\<^sup>2 = (cos t)\<^sup>2"
    by (simp add: cos_squared_eq)
  then have s2: "sqrt (1 - (sin t)\<^sup>2) = cos t" using c by simp
  have s1: "sqrt ((sin t)\<^sup>2) = sin \<bar>t\<bar>"
  proof (cases "0 \<le> t")
    case True
    then have "0 \<le> sin t" using assms by (intro sin_ge_zero) auto
    with True show ?thesis by simp
  next
    case False
    then have "0 \<le> sin (- t)" using assms by (intro sin_ge_zero) auto
    with False show ?thesis by simp
  qed
  have "atan2 (sin \<bar>t\<bar>) (cos t) = arctan (sin \<bar>t\<bar> / cos \<bar>t\<bar>)"
    using c by (simp add: atan2_def abs_if)
  also have "\<dots> = arctan (tan \<bar>t\<bar>)" by (simp add: tan_def)
  also have "\<dots> = \<bar>t\<bar>" using assms by (intro arctan_tan) auto
  finally show ?thesis unfolding s1 s2 .
qed

lemma haversine_same_longitude:
  assumes "\<bar>lat2 - lat1\<bar> < 180"
  shows "haversine_distance lat1 lon lat2 lon = 6371000 * (\<bar>lat2 - lat1\<bar> * pi / 180)"
proof -
  have e: "\<bar>radians (lat2 - lat1) / 2\<bar> = \<bar>lat2 - lat1\<bar> * pi / 360"
    by (simp add: radians_def abs_mult)
  have "\<bar>lat2 - lat1\<bar> * pi < 180 * pi"
    using assms by (intro mult_strict_right_mono) simp_all
  then have "\<bar>radians (lat2 - lat1) / 2\<bar> < pi / 2"
    unfolding e by simp
  from atan2_sin_cos [OF this]
  have A: "atan2 (sqrt ((sin (radians (lat2 - lat1) / 2))\<^sup>2))
             (sqrt (1 - (sin (radians (lat2 - lat1) / 2))\<^sup>2)) = \<bar>lat2 - lat1\<bar> * pi / 360"
    unfolding e .
  have a_eq: "(sin (radians (lat2 - lat1) / 2))\<^sup>2
        + cos (radians lat1) * cos (radians lat2) * (sin (radians (lon - lon) / 2))\<^sup>2
      = (sin (radians (lat2 - lat1) / 2))\<^sup>2"
    by (simp add: radians_def)
  have "haversine_distance lat1 lon lat2 lon = 2 * 6371000 * (\<bar>lat2 - lat1\<bar> * pi / 360)"
    unfolding haversine_distance_def Let_def a_eq A ..
  then show ?thesis by simp
qed


section \<open>Properties of deduplication\<close>


lemma merge_into_first_hit:
  "i < length ks \<Longrightarrow> within_10m node (ks ! i) \<Longrightarrow> \<forall>j<i. \<not> within_10m node (ks ! j) \<Longrightarrow>
   merge_into_first node ks =
     (case merge_node (ks ! i) node of Inl e \<Rightarrow> Inl e | Inr e' \<Rightarrow> Inr (Some (ks[i := e'])))"
proof (induction ks arbitrary: i)
  case Nil
  then show ?case by simp
next
  case (Cons k ks)
  show ?case
  proof (cases i)
    case 0
    with Cons.prems show ?thesis
      by (simp add: within_10m_def Let_def split: sum.splits)
  next
    case (Suc i')
    from Cons.prems Suc have nk: "\<not> within_10m node k" by auto
    from Cons.prems Suc have "i' < length ks" "within_10m node (ks ! i')"
      "\<forall>j<i'. \<not> within_10m node (ks ! j)" by auto
    from Cons.IH [OF this] nk Suc show ?thesis
      by (simp add: within_10m_def Let_def split: sum.splits)
  qed
qed


lemma dedup_loop_snoc:
  "dedup_loop acc (nodes @ [node]) =
     (case dedup_loop acc nodes of Inl e \<Rightarrow> Inl e | Inr kept \<Rightarrow> dedup_step kept node)"
  by (induction nodes arbitrary: acc) (simp_all split: sum.splits)

lemma deduplicate_nodes_snoc:
  "deduplicate_nodes nodes = Inr kept \<Longrightarrow> deduplicate_nodes (nodes @ [node]) = dedup_step kept node"
  by (simp add: deduplicate_nodes_def dedup_loop_snoc)


lemma abs_scale: "0 \<le> k \<Longrightarrow> 0 < c \<Longrightarrow> \<bar>t * k / c\<bar> = \<bar>t\<bar> * k / (c::real)"
  by (simp add: abs_mult)

lemma haversine_degrees_north:
  assumes "\<bar>b - a\<bar> < 6371000"
  shows "haversine_distance (degrees_north a) x (degrees_north b) x = \<bar>b - a\<bar>"
proof -
  have d: "degrees_north b - degrees_north a = (b - a) * 180 / (6371000 * pi)"
    by (simp add: degrees_north_def field_simps)
  have "(6371000::real) \<le> 6371000 * pi"
    using pi_ge_two by simp
  with assms have "\<bar>b - a\<bar> < 6371000 * pi" by linarith
  then have "\<bar>b - a\<bar> * 180 < 6371000 * pi * 180" by simp
  then have "\<bar>degrees_north b - degrees_north a\<bar> < 180"
    unfolding d by (simp add: abs_mult field_simps)
  from haversine_same_longitude [OF this]
  have "haversine_distance (degrees_north a) x (degrees_north b) x
          = 6371000 * (\<bar>(b - a) * 180 / (6371000 * pi)\<bar> * pi / 180)"
    unfolding d .
  also have "\<bar>(b - a) * 180 / (6371000 * pi)\<bar> = \<bar>b - a\<bar> * 180 / (6371000 * pi)"
    using abs_scale [of 180 "6371000 * pi" "b - a"] by simp
  also have "6371000 * (\<bar>b - a\<bar> * 180 / (6371000 * pi) * pi / 180) = \<bar>b - a\<bar>"
    by simp
  finally show ?thesis .
qed


lemma merge_node_absent:
  "urgency e = None \<or> count e = None \<Longrightarrow> merge_node e n = Inl TypeError"
  by (auto simp: merge_node_def Let_def split: option.splits)

lemma within_10m_north:
  "\<bar>b - a\<bar> < 6371000 \<Longrightarrow>
   within_10m \<lparr>node_id = i, node_x = 0, node_y = degrees_north a, ntype = t, urgency = u, count = c\<rparr>
              \<lparr>node_id = i', node_x = 0, node_y = degrees_north b, ntype = t', urgency = u', count = c'\<rparr>
     \<longleftrightarrow> \<bar>b - a\<bar> < 10"
  by (simp add: within_10m_def haversine_degrees_north)




text \<open>
  Claim C10, as amended. When the first kept point within 10 m of an incoming point, which
  is the point the merge is applied to, lacks urgency or count, deduplication raises
  \<^verbatim>\<open>TypeError\<close>.
\<close>

theorem deduplicate_nodes_type_error:
  assumes "deduplicate_nodes nodes = Inr kept"
    and "i < length kept"
    and "within_10m node (kept ! i)"
    and "\<forall>j<i. \<not> within_10m node (kept ! j)"
    and "urgency (kept ! i) = None \<or> count (kept ! i) = None"
  shows "deduplicate_nodes (nodes @ [node]) = Inl TypeError"
  by (simp add: deduplicate_nodes_snoc [OF assms(1)] dedup_step_def
        merge_into_first_hit [OF assms(2-4)] merge_node_absent [OF assms(5)])

text \<open>A survivor 5 m from a kept pickup without urgency and count.\<close>

theorem deduplicate_nodes_type_error_witness:
  "deduplicate_nodes [pickup_at 1 0] = Inr [pickup_at 1 0]
   \<and> within_10m (survivor_at 2 5 3 2) (pickup_at 1 0)
   \<and> urgency (pickup_at 1 0) = None
   \<and> deduplicate_nodes [pickup_at 1 0, survivor_at 2 5 3 2] = Inl TypeError"
proof -
  have one: "deduplicate_nodes [pickup_at 1 0] = Inr [pickup_at 1 0]"
    by (simp add: deduplicate_nodes_def dedup_step_def)
  have near: "within_10m (survivor_at 2 5 3 2) ([pickup_at 1 0] ! 0)"
    by (simp add: survivor_at_def pickup_at_def within_10m_north)
  have absent: "urgency ([pickup_at 1 0] ! 0) = None \<or> count ([pickup_at 1 0] ! 0) = None"
    by (simp add: pickup_at_def)
  from deduplicate_nodes_type_error [OF one _ near _ absent] one near
  show ?thesis by (simp add: pickup_at_def)
qed

text \<open>
  Claim C10 as stated fails: below, the third point is within 10 m of the kept pickup,
  which has neither urgency nor count, but it is also within 10 m of the survivor kept
  before the pickup; the merge goes to that survivor and nothing is raised.
\<close>

theorem deduplicate_nodes_type_error_counterexample:
  "deduplicate_nodes [survivor_at 1 0 3 2, pickup_at 2 15] = Inr [survivor_at 1 0 3 2, pickup_at 2 15]
   \<and> within_10m (survivor_at 3 (15 / 2) 5 4) (pickup_at 2 15)
   \<and> validate_data (pickup_at 2 15) = Inr (pickup_at 2 15)
   \<and> urgency (pickup_at 2 15) = None \<and> count (pickup_at 2 15) = None
   \<and> deduplicate_nodes [survivor_at 1 0 3 2, pickup_at 2 15, survivor_at 3 (15 / 2) 5 4]
        = Inr [(survivor_at 1 0 3 2)\<lparr>urgency := Some 5, count := Some 6\<rparr>, pickup_at 2 15]"
proof -
  have ab: "\<not> within_10m (pickup_at 2 15) (survivor_at 1 0 3 2)"
    by (simp add: survivor_at_def pickup_at_def within_10m_north)
  have ca: "within_10m (survivor_at 3 (15 / 2) 5 4) (survivor_at 1 0 3 2)"
    by (simp add: survivor_at_def within_10m_north)
  have cb: "within_10m (survivor_at 3 (15 / 2) 5 4) (pickup_at 2 15)"
    by (simp add: survivor_at_def pickup_at_def within_10m_north)
  have two: "deduplicate_nodes [survivor_at 1 0 3 2, pickup_at 2 15]
               = Inr [survivor_at 1 0 3 2, pickup_at 2 15]"
    using ab by (simp add: deduplicate_nodes_def dedup_step_def within_10m_def Let_def)
  have three: "deduplicate_nodes [survivor_at 1 0 3 2, pickup_at 2 15, survivor_at 3 (15 / 2) 5 4]
        = Inr [(survivor_at 1 0 3 2)\<lparr>urgency := Some 5, count := Some 6\<rparr>, pickup_at 2 15]"
    using ab ca
    by (simp add: deduplicate_nodes_def dedup_step_def within_10m_def Let_def merge_node_def)
       (simp add: survivor_at_def)
  show ?thesis using two cb three by (simp add: pickup_at_def validate_data_def)
qed


section \<open>Properties of integration\<close>





section \<open>Properties of edge splitting\<close>

text \<open>
  The identifier of an inserted node is never positive, but it is zero whenever the hash
  value is a multiple of 10000000.
\<close>

lemma new_node_id_range: "- 10000000 < new_node_id h \<and> new_node_id h \<le> 0"
  by (simp add: new_node_id_def)

lemma new_node_id_negative_iff: "new_node_id h < 0 \<longleftrightarrow> \<not> 10000000 dvd h"
  by (auto simp: new_node_id_def dvd_eq_mod_eq_0 order_less_le)

text \<open>
  Claim C4 at the hash value 8024500227580000000, a multiple of 10000000: the split of
  the existing edge \<open>(1, 2, 0)\<close> succeeds, inserts the node and returns the identifier 0,
  which is not negative.
\<close>

theorem split_edge_at_point_zero_id:
  "new_node_id 8024500227580000000 = 0
   \<and> (\<exists>G'. split_edge_at_point segment_shapely 8024500227580000000 two_way_graph 1 2 0
               (0, degrees_north 500) = Inr (Some 0, G')
            \<and> g_nodes G' 0 \<noteq> None \<and> has_edge_key G' 1 0 0 \<and> has_edge_key G' 0 2 0
            \<and> \<not> has_edge_key G' 1 2 0)"
  by (simp add: split_edge_at_point_def get_edge_data_def two_way_graph_def clear_attrs_def
        node_xy_def add_node_def add_edge_def remove_edge_def has_edge_key_def Let_def
        new_node_id_def split: prod.splits)

text \<open>
  In \<^verbatim>\<open>integrate_nodes_into_graph\<close> the identifier 0 is then taken for a failed split
  (\<^verbatim>\<open>new_id or u\<close>): the request is recorded at \<open>u\<close> although the edge was split.
\<close>

lemma integrate_node_zero_id_falls_back:
  "\<exists>G' n'. integrate_node segment_shapely (nearest_1_2 two_way_graph) (\<lambda>u v k n. 8024500227580000000)
              two_way_graph 0 (survivor_at 7 500 3 2)
            = Inr (G', n', \<lparr>graph_id = 1, req = survivor_at 7 500 3 2\<rparr>)
          \<and> g_nodes G' 0 \<noteq> None \<and> \<not> has_edge_key G' 1 2 0"
proof -
  have d: "haversine_distance (degrees_north 500) 0 (degrees_north 0) 0 = 500"
      "haversine_distance (degrees_north 500) 0 (degrees_north 1000) 0 = 500"
    by (simp_all add: haversine_degrees_north)
  show ?thesis
    by (simp add: integrate_node_def nearest_1_2_def survivor_at_def d nearest_edge_state_def
        edge_data_truthy_def has_edge_def adj_keys_def
        split_edge_at_point_def get_edge_data_def two_way_graph_def clear_attrs_def
        node_xy_def add_node_def add_edge_def remove_edge_def has_edge_key_def Let_def
        new_node_id_def split: prod.splits)
qed


section \<open>Properties of the travel costs\<close>

lemma gnn_weights_Cons:
  "gnn_weights ((k, d) # es) (prob # probs) =
     (fst (gnn_weights es probs),
      (k, d\<lparr>travel_cost := Some (get_length d * state_multiplier (get_state d) * (1 - prob * (8 / 10)))\<rparr>)
        # snd (gnn_weights es probs))"
  by (simp add: Let_def split: prod.splits)

lemma gnn_weights_length: "length (snd (gnn_weights es probs)) = length es"
proof (induction es arbitrary: probs)
  case Nil
  then show ?case by simp
next
  case (Cons e es)
  obtain k d where e: "e = (k, d)" by (cases e)
  show ?case using Cons.IH unfolding e by (cases probs) (simp_all add: gnn_weights_Cons del: gnn_weights.simps(3))
qed

lemma gnn_weights_error:
  "fst (gnn_weights es probs) = (if length es \<le> length probs then None else Some IndexError)"
proof (induction es arbitrary: probs)
  case Nil
  then show ?case by simp
next
  case (Cons e es)
  obtain k d where e: "e = (k, d)" by (cases e)
  show ?case using Cons.IH unfolding e by (cases probs) (simp_all add: gnn_weights_Cons del: gnn_weights.simps(3))
qed

lemma gnn_weights_nth:
  "length es \<le> length probs \<Longrightarrow> i < length es \<Longrightarrow> es ! i = (k, d) \<Longrightarrow>
   snd (gnn_weights es probs) ! i =
     (k, d\<lparr>travel_cost := Some (get_length d * state_multiplier (get_state d) * (1 - (8 / 10) * probs ! i))\<rparr>)"
proof (induction es arbitrary: probs i)
  case Nil
  then show ?case by simp
next
  case (Cons e es)
  obtain k' d' where e: "e = (k', d')" by (cases e)
  from Cons.prems obtain prob probs' where p: "probs = prob # probs'" by (cases probs) auto
  show ?case
  proof (cases i)
    case 0
    with Cons.prems show ?thesis unfolding e p
      by (simp add: gnn_weights_Cons del: gnn_weights.simps(3))
  next
    case (Suc j)
    with Cons.prems have "length es \<le> length probs'" "j < length es" "es ! j = (k, d)"
      unfolding p by simp_all
    from Cons.IH [OF this] Suc show ?thesis unfolding e p
      by (simp add: gnn_weights_Cons del: gnn_weights.simps(3))
  qed
qed

lemma standard_map_gnn:
  "map (\<lambda>(k, d). (k, d\<lparr>travel_cost := Some (get_length d * state_multiplier (get_state d))\<rparr>))
          (snd (gnn_weights es probs))
        = map (\<lambda>(k, d). (k, d\<lparr>travel_cost := Some (get_length d * state_multiplier (get_state d))\<rparr>)) es"
proof (induction es arbitrary: probs)
  case Nil
  then show ?case by simp
next
  case (Cons e es)
  obtain k d where e: "e = (k, d)" by (cases e)
  show ?case using Cons.IH unfolding e
    by (cases probs) (simp_all add: gnn_weights_Cons get_length_def get_state_def del: gnn_weights.simps(3))
qed

lemma gnn_weights_standard:
  "g_edges (standard_weights (G\<lparr>g_edges := snd (gnn_weights es probs)\<rparr>))
     = g_edges (standard_weights (G\<lparr>g_edges := es\<rparr>))"
  by (simp add: standard_weights_def standard_map_gnn)

lemma standard_weights_nth:
  "i < length (g_edges G) \<Longrightarrow> g_edges G ! i = (k, d) \<Longrightarrow>
   g_edges (standard_weights G) ! i =
     (k, d\<lparr>travel_cost := Some (get_length d * state_multiplier (get_state d))\<rparr>)"
  by (simp add: standard_weights_def)

lemma travel_cost_edge:
  assumes "i < length (g_edges G)" and "g_edges G ! i = (k, d)"
  shows "g_edges (assign_travel_costs rescunet_model G) ! i =
           (k, d\<lparr>travel_cost :=
                   Some (get_length d * state_multiplier (get_state d) * discount rescunet_model G i)\<rparr>)
         \<and> length (g_edges (assign_travel_costs rescunet_model G)) = length (g_edges G)
         \<and> g_nodes (assign_travel_costs rescunet_model G) = g_nodes G"
proof (cases rescunet_model)
  case None
  with assms show ?thesis
    by (simp add: assign_travel_costs_def discount_def standard_weights_def)
next
  case (Some model)
  show ?thesis
  proof (cases "model G")
    case (Inl e)
    with Some assms show ?thesis
      by (simp add: assign_travel_costs_def discount_def standard_weights_def)
  next
    case (Inr probs)
    have A: "assign_travel_costs rescunet_model G =
        (if fst (gnn_weights (g_edges G) probs) = None
         then G\<lparr>g_edges := snd (gnn_weights (g_edges G) probs)\<rparr>
         else standard_weights (G\<lparr>g_edges := snd (gnn_weights (g_edges G) probs)\<rparr>))"
      using Some Inr by (simp add: assign_travel_costs_def split: prod.splits option.splits)
    show ?thesis
    proof (cases "length (g_edges G) \<le> length probs")
      case True
      with Some Inr assms show ?thesis
        unfolding A
        by (simp add: discount_def gnn_weights_error gnn_weights_nth gnn_weights_length)
    next
      case False
      have "g_edges (assign_travel_costs rescunet_model G) = g_edges (standard_weights G)"
        using False gnn_weights_standard [where G = G and es = "g_edges G" and probs = probs]
        unfolding A by (simp add: gnn_weights_error)
      moreover have "g_nodes (assign_travel_costs rescunet_model G) = g_nodes G"
        using False unfolding A by (simp add: gnn_weights_error standard_weights_def)
      ultimately show ?thesis
        using False Some Inr assms
        by (simp add: discount_def standard_weights_def)
    qed
  qed
qed

lemma state_multiplier_values:
  "state_multiplier ''clear'' = 1" "state_multiplier ''partial'' = 5"
  "state_multiplier ''blocked'' = 10000"
  by (simp_all add: state_multiplier_def)


text \<open>
  Claim C7. After the weighting step every edge of the routing graph is still there, with
  its other attributes unchanged, and carries the travel cost length times state
  multiplier times discount. The multiplier is 1 for clear, 5 for partial and 10000 for
  blocked; the discount is \<open>1 - 0.8 p\<close> when the model supplies the probabilities and 1
  when the model is absent or its call fails. A missing length counts 1 and a missing
  state counts as clear.
\<close>

theorem travel_cost_formula:
  assumes "i < length (g_edges G)" and "g_edges G ! i = (k, d)"
  shows "g_edges (assign_travel_costs rescunet_model G) ! i =
           (k, d\<lparr>travel_cost :=
                   Some (get_length d * state_multiplier (get_state d) * discount rescunet_model G i)\<rparr>)
         \<and> length (g_edges (assign_travel_costs rescunet_model G)) = length (g_edges G)
         \<and> g_nodes (assign_travel_costs rescunet_model G) = g_nodes G
         \<and> state_multiplier ''clear'' = 1 \<and> state_multiplier ''partial'' = 5
         \<and> state_multiplier ''blocked'' = 10000
         \<and> discount None G i = 1
         \<and> (\<forall>model e. model G = Inl e \<longrightarrow> discount (Some model) G i = 1)
         \<and> (\<forall>model probs. model G = Inr probs \<and> length (g_edges G) \<le> length probs \<longrightarrow>
               discount (Some model) G i = 1 - (8 / 10) * probs ! i)"
  using travel_cost_edge [OF assms, of rescunet_model]
  by (simp add: state_multiplier_values discount_def)

text \<open>
  On the example graph: the partial edge of length 1500 with probability 1/2 costs
  1500 * 5 * 0.6; with a failing model it costs 1500 * 5; a blocked edge of length 1000
  without a model costs 1000 * 10000.
\<close>

theorem travel_cost_formula_witness:
  "g_edges (assign_travel_costs (Some half_model) two_way_graph) ! 2
     = ((2, 1, 1), (clear_attrs 1500)\<lparr>state := Some ''partial'', travel_cost := Some 4500\<rparr>)
   \<and> g_edges (assign_travel_costs (Some failing_model) two_way_graph) ! 2
     = ((2, 1, 1), (clear_attrs 1500)\<lparr>state := Some ''partial'', travel_cost := Some 7500\<rparr>)
   \<and> g_edges (assign_travel_costs None (edit_edges two_way_graph [block_1_2])) ! 0
     = ((1, 2, 0), (clear_attrs 1000)\<lparr>state := Some ''blocked'', travel_cost := Some 10000000\<rparr>)"
proof -
  have e2: "2 < length (g_edges two_way_graph)"
    "g_edges two_way_graph ! 2 = ((2, 1, 1), (clear_attrs 1500)\<lparr>state := Some ''partial''\<rparr>)"
    by (simp_all add: two_way_graph_def)
  have b: "g_edges (edit_edges two_way_graph [block_1_2]) =
      [((1, 2, 0), (clear_attrs 1000)\<lparr>state := Some ''blocked''\<rparr>),
       ((2, 1, 0), (clear_attrs 1000)\<lparr>state := Some ''blocked''\<rparr>),
       ((2, 1, 1), (clear_attrs 1500)\<lparr>state := Some ''blocked''\<rparr>)]"
    by (simp add: edit_edges_def edit_edge_def two_way_graph_def block_1_2_def has_edge_key_def
          get_edge_data_def set_edge_state_def has_edge_def adj_keys_def Let_def)
  have e0: "0 < length (g_edges (edit_edges two_way_graph [block_1_2]))"
    "g_edges (edit_edges two_way_graph [block_1_2]) ! 0
       = ((1, 2, 0), (clear_attrs 1000)\<lparr>state := Some ''blocked''\<rparr>)"
    by (simp_all add: b)
  from travel_cost_formula [OF e2, of "Some half_model"]
       travel_cost_formula [OF e2, of "Some failing_model"]
       travel_cost_formula [OF e0, of None]
  show ?thesis
    by (simp add: discount_def half_model_def failing_model_def two_way_graph_def
          get_length_def get_state_def state_multiplier_def clear_attrs_def)
qed


section \<open>Properties of the dispatch loop\<close>

lemma best_inv_skip:
  assumes "best_inv spl vs ss P b" and "\<forall>d. \<not> reachable_pair spl (vs ! vi) (ss ! si) d"
  shows "best_inv spl vs ss (insert (vi, si) P) b"
  using assms unfolding best_inv_def by auto

lemma best_inv_candidate:
  assumes inv: "best_inv spl vs ss P b"
    and r: "reachable_pair spl (vs ! vi) (ss ! si) d"
  shows "best_inv spl vs ss (insert (vi, si) P)
           (if less_than_best (score (vs ! vi) (ss ! si) d) (best_global_score b)
            then \<lparr>best_global_score = Some (score (vs ! vi) (ss ! si) d), best_vehicle_idx = int vi,
                  best_survivor_idx = int si, best_segment_dist = d\<rparr>
            else b)"
proof -
  let ?sc = "score (vs ! vi) (ss ! si) d"
  let ?new = "\<lparr>best_global_score = Some ?sc, best_vehicle_idx = int vi,
                best_survivor_idx = int si, best_segment_dist = d\<rparr>"
  have uniq: "d' = d" if "reachable_pair spl (vs ! vi) (ss ! si) d'" for d'
    using that r unfolding reachable_pair_def by simp
  have new_ok: "best_inv spl vs ss (insert (vi, si) P) ?new"
    if le: "\<forall>(vj, sj) \<in> P. \<forall>d'. reachable_pair spl (vs ! vj) (ss ! sj) d' \<longrightarrow>
              ?sc \<le> score (vs ! vj) (ss ! sj) d'"
  proof -
    have "\<forall>(vj, sj) \<in> insert (vi, si) P. \<forall>d'. reachable_pair spl (vs ! vj) (ss ! sj) d' \<longrightarrow>
              ?sc \<le> score (vs ! vj) (ss ! sj) d'"
      using le uniq by auto
    then show ?thesis
      unfolding best_inv_def using r by (intro disjI2 exI [of _ vi] exI [of _ si]) simp
  qed
  from inv consider
      (empty) "best_vehicle_idx b = - 1" "best_global_score b = None"
        "\<forall>(vj, sj) \<in> P. \<forall>d. \<not> reachable_pair spl (vs ! vj) (ss ! sj) d"
    | (some) vi0 si0 where "(vi0, si0) \<in> P" "best_vehicle_idx b = int vi0"
        "best_survivor_idx b = int si0"
        "reachable_pair spl (vs ! vi0) (ss ! si0) (best_segment_dist b)"
        "best_global_score b = Some (score (vs ! vi0) (ss ! si0) (best_segment_dist b))"
        "\<forall>(vj, sj) \<in> P. \<forall>d. reachable_pair spl (vs ! vj) (ss ! sj) d \<longrightarrow>
            score (vs ! vi0) (ss ! si0) (best_segment_dist b) \<le> score (vs ! vj) (ss ! sj) d"
    unfolding best_inv_def by (elim disjE exE conjE) (assumption | rule)+
  then show ?thesis
  proof cases
    case empty
    then have "\<forall>(vj, sj) \<in> P. \<forall>d'. reachable_pair spl (vs ! vj) (ss ! sj) d' \<longrightarrow>
              ?sc \<le> score (vs ! vj) (ss ! sj) d'" by auto
    from new_ok [OF this] empty(2) show ?thesis by (simp add: less_than_best_def)
  next
    case some
    let ?s0 = "score (vs ! vi0) (ss ! si0) (best_segment_dist b)"
    show ?thesis
    proof (cases "?sc < ?s0")
      case True
      have "\<forall>(vj, sj) \<in> P. \<forall>d'. reachable_pair spl (vs ! vj) (ss ! sj) d' \<longrightarrow>
              ?sc \<le> score (vs ! vj) (ss ! sj) d'"
      proof (intro ballI, clarify)
        fix vj sj d' assume "(vj, sj) \<in> P" "reachable_pair spl (vs ! vj) (ss ! sj) d'"
        with some(6) have "?s0 \<le> score (vs ! vj) (ss ! sj) d'" by blast
        with True show "?sc \<le> score (vs ! vj) (ss ! sj) d'" by linarith
      qed
      from new_ok [OF this] True some(5) show ?thesis by (simp add: less_than_best_def)
    next
      case False
      have "\<forall>(vj, sj) \<in> insert (vi, si) P. \<forall>d'. reachable_pair spl (vs ! vj) (ss ! sj) d' \<longrightarrow>
              ?s0 \<le> score (vs ! vj) (ss ! sj) d'"
        using some(6) uniq False by auto
      then have "best_inv spl vs ss (insert (vi, si) P) b"
        unfolding best_inv_def using some(1-5)
        by (intro disjI2 exI [of _ vi0] exI [of _ si0]) simp
      with False some(5) show ?thesis by (simp add: less_than_best_def)
    qed
  qed
qed


lemma scan_survivors_inv:
  assumes "scan_survivors spl (vs ! vi) (int vi) rest (int k) b = Inr b'"
    and "ss = pre @ rest" and "k = length pre"
    and "best_inv spl vs ss P b"
  shows "best_inv spl vs ss (P \<union> {(vi, sj) | sj. k \<le> sj \<and> sj < length ss}) b'"
  using assms
proof (induction rest arbitrary: pre k b P)
  case Nil
  have e: "{(vi, sj) | sj. k \<le> sj \<and> sj < length ss} = {}"
    using Nil.prems(2,3) by auto
  from Nil.prems(1) have "b' = b" by simp
  with Nil.prems(4) show ?case unfolding e by simp
next
  case (Cons s rest)
  have sk: "ss ! k = s" using Cons.prems(2,3) by simp
  have klt: "k < length ss" using Cons.prems(2,3) by simp
  have set_eq: "insert (vi, k) P \<union> {(vi, sj) | sj. Suc k \<le> sj \<and> sj < length ss}
                  = P \<union> {(vi, sj) | sj. k \<le> sj \<and> sj < length ss}"
    using klt by (auto simp: Suc_le_eq le_less)
  have pre': "ss = (pre @ [s]) @ rest" "Suc k = length (pre @ [s])"
    using Cons.prems(2,3) by simp_all
  have step: "best_inv spl vs ss (P \<union> {(vi, sj) | sj. k \<le> sj \<and> sj < length ss}) b'"
    if "scan_survivors spl (vs ! vi) (int vi) rest (int (Suc k)) b0 = Inr b'"
      and "best_inv spl vs ss (insert (vi, k) P) b0" for b0
    using Cons.IH [OF that(1) pre' that(2)] unfolding set_eq .
  have suc: "int k + 1 = int (Suc k)" by simp
  show ?case
  proof (cases "current_node (vs ! vi) = graph_id s")
    case True
    then have nr: "\<forall>d. \<not> reachable_pair spl (vs ! vi) (ss ! k) d"
      by (simp add: reachable_pair_def sk)
    from Cons.prems(1) True
    have "scan_survivors spl (vs ! vi) (int vi) rest (int (Suc k)) b = Inr b'"
      unfolding suc [symmetric] by simp
    from step [OF this best_inv_skip [OF Cons.prems(4) nr]] show ?thesis .
  next
    case False
    show ?thesis
    proof (cases "spl (current_node (vs ! vi)) (graph_id s)")
      case (Inl e)
      then have nr: "\<forall>d. \<not> reachable_pair spl (vs ! vi) (ss ! k) d"
        by (simp add: reachable_pair_def sk)
      from Cons.prems(1) False Inl
      have "scan_survivors spl (vs ! vi) (int vi) rest (int (Suc k)) b = Inr b'"
        unfolding suc [symmetric] by (simp split: if_splits)
      from step [OF this best_inv_skip [OF Cons.prems(4) nr]] show ?thesis .
    next
      case (Inr d)
      then have r: "reachable_pair spl (vs ! vi) (ss ! k) d"
        using False by (simp add: reachable_pair_def sk)
      from Cons.prems(1) False Inr obtain urg cnt where
        f: "urgency (req s) = Some urg" "count (req s) = Some cnt" "urg\<^sup>2 + cnt \<noteq> 0"
        by (auto simp: Let_def split: option.splits if_splits)
      have sc: "(total_distance (vs ! vi) + d) / real_of_int (urg\<^sup>2 + cnt) = score (vs ! vi) (ss ! k) d"
        by (simp add: score_def sk f)
      from Cons.prems(1) False Inr f
      have "scan_survivors spl (vs ! vi) (int vi) rest (int (Suc k))
              (if less_than_best (score (vs ! vi) (ss ! k) d) (best_global_score b)
               then \<lparr>best_global_score = Some (score (vs ! vi) (ss ! k) d), best_vehicle_idx = int vi,
                     best_survivor_idx = int k, best_segment_dist = d\<rparr>
               else b) = Inr b'"
        unfolding suc [symmetric] sc [symmetric] by (simp add: Let_def split: if_splits)
      from step [OF this best_inv_candidate [OF Cons.prems(4) r]] show ?thesis .
    qed
  qed
qed

lemma scan_vehicles_inv:
  assumes "scan_vehicles spl rest (int k) ss b = Inr b'"
    and "vs = pre @ rest" and "k = length pre"
    and "best_inv spl vs ss P b"
  shows "best_inv spl vs ss (P \<union> {(vj, sj). k \<le> vj \<and> vj < length vs \<and> sj < length ss}) b'"
  using assms
proof (induction rest arbitrary: pre k b P)
  case Nil
  have e: "{(vj, sj). k \<le> vj \<and> vj < length vs \<and> sj < length ss} = {}"
    using Nil.prems(2,3) by auto
  from Nil.prems(1) have "b' = b" by simp
  with Nil.prems(4) show ?case unfolding e by simp
next
  case (Cons v rest)
  have vk: "vs ! k = v" using Cons.prems(2,3) by simp
  have klt: "k < length vs" using Cons.prems(2,3) by simp
  from Cons.prems(1) obtain b1 where
    b1: "scan_survivors spl (vs ! k) (int k) ss (int 0) b = Inr b1"
    and rest: "scan_vehicles spl rest (int (Suc k)) ss b1 = Inr b'"
    by (auto simp: vk add.commute split: sum.splits)
  have i1: "best_inv spl vs ss (P \<union> {(k, sj) | sj. 0 \<le> sj \<and> sj < length ss}) b1"
    using scan_survivors_inv [OF b1, where ss = ss and pre = "[]" and P = P] Cons.prems(4)
    by simp
  have pre': "vs = (pre @ [v]) @ rest" "Suc k = length (pre @ [v])"
    using Cons.prems(2,3) by simp_all
  have set_eq: "P \<union> {(k, sj) | sj. 0 \<le> sj \<and> sj < length ss}
                  \<union> {(vj, sj). Suc k \<le> vj \<and> vj < length vs \<and> sj < length ss}
                = P \<union> {(vj, sj). k \<le> vj \<and> vj < length vs \<and> sj < length ss}"
    using klt by (auto simp: Suc_le_eq le_less)
  from Cons.IH [OF rest pre' i1] show ?case unfolding set_eq .
qed

lemma best_inv_initial: "best_inv spl vs ss {} initial_best"
  by (simp add: best_inv_def initial_best_def)

lemma scan_vehicles_all:
  assumes "scan_vehicles spl vs 0 ss initial_best = Inr b"
  shows "best_inv spl vs ss {(vj, sj). vj < length vs \<and> sj < length ss} b"
  using scan_vehicles_inv [where spl = spl and rest = vs and k = 0 and ss = ss
          and b = initial_best and b' = b and vs = vs and pre = "[]" and P = "{}"]
        assms best_inv_initial
  by simp

lemma py_position_nat: "i < length xs \<Longrightarrow> py_position xs (int i) = Inr i"
  by (simp add: py_position_def Let_def)

lemma py_pop_nat: "i < length xs \<Longrightarrow> py_pop xs (int i) = Inr (take i xs @ drop (Suc i) xs)"
  by (simp add: py_pop_def py_position_nat)

lemma best_inv_all_cases:
  assumes "best_inv spl vs ss {(vj, sj). vj < length vs \<and> sj < length ss} b"
  shows "(best_vehicle_idx b = - 1
            \<and> (\<forall>vj sj d. vj < length vs \<and> sj < length ss \<longrightarrow> \<not> reachable_pair spl (vs ! vj) (ss ! sj) d))
         \<or> (\<exists>vi si. vi < length vs \<and> si < length ss
               \<and> best_vehicle_idx b = int vi \<and> best_survivor_idx b = int si
               \<and> reachable_pair spl (vs ! vi) (ss ! si) (best_segment_dist b)
               \<and> (\<forall>vj sj d. vj < length vs \<and> sj < length ss
                      \<and> reachable_pair spl (vs ! vj) (ss ! sj) d \<longrightarrow>
                    score (vs ! vi) (ss ! si) (best_segment_dist b) \<le> score (vs ! vj) (ss ! sj) d))"
  using assms unfolding best_inv_def
  by (elim disjE exE conjE) (rule disjI1, fastforce, rule disjI2, fastforce)

text \<open>
  Claim C1, as amended. A pass of the loop that assigns does so for a reachable pair
  whose score is least among all reachable pairs of vehicles and remaining survivors: the
  winning vehicle moves to the survivor's node, its distance grows by the path distance,
  its path is extended by the shortest path without its first node, and the survivor
  leaves the remaining list. A pass that ends the loop finds no reachable pair.
\<close>

theorem dispatch_step_minimal:
  "(\<forall>pickup_vec' remaining'.
      dispatch_step spl sp pickup_vec remaining = Inr (Some (pickup_vec', remaining')) \<longrightarrow>
      (\<exists>vi si d seg.
          vi < length pickup_vec \<and> si < length remaining
        \<and> reachable_pair spl (pickup_vec ! vi) (remaining ! si) d
        \<and> (\<forall>vj sj d'. vj < length pickup_vec \<and> sj < length remaining
               \<and> reachable_pair spl (pickup_vec ! vj) (remaining ! sj) d' \<longrightarrow>
             score (pickup_vec ! vi) (remaining ! si) d \<le> score (pickup_vec ! vj) (remaining ! sj) d')
        \<and> sp (current_node (pickup_vec ! vi)) (graph_id (remaining ! si)) = Inr seg
        \<and> pickup_vec' = pickup_vec[vi := (pickup_vec ! vi)
              \<lparr>path := path (pickup_vec ! vi) @ (if length seg > 1 then tl seg else []),
               current_node := graph_id (remaining ! si),
               total_distance := total_distance (pickup_vec ! vi) + d\<rparr>]
        \<and> remaining' = take si remaining @ drop (Suc si) remaining))
   \<and> (dispatch_step spl sp pickup_vec remaining = Inr None \<longrightarrow>
        (\<forall>vj sj d'. vj < length pickup_vec \<and> sj < length remaining \<longrightarrow>
            \<not> reachable_pair spl (pickup_vec ! vj) (remaining ! sj) d'))"
proof (intro conjI allI impI)
  fix pickup_vec' remaining'
  assume step: "dispatch_step spl sp pickup_vec remaining = Inr (Some (pickup_vec', remaining'))"
  then obtain b where b: "scan_vehicles spl pickup_vec 0 remaining initial_best = Inr b"
    and nz: "best_vehicle_idx b \<noteq> - 1"
    by (auto simp: dispatch_step_def split: sum.splits if_splits)
  from best_inv_all_cases [OF scan_vehicles_all [OF b]] nz
  obtain vi si where vs: "vi < length pickup_vec" "si < length remaining"
    "best_vehicle_idx b = int vi" "best_survivor_idx b = int si"
    "reachable_pair spl (pickup_vec ! vi) (remaining ! si) (best_segment_dist b)"
    and mn: "\<forall>vj sj d. vj < length pickup_vec \<and> sj < length remaining
                \<and> reachable_pair spl (pickup_vec ! vj) (remaining ! sj) d \<longrightarrow>
              score (pickup_vec ! vi) (remaining ! si) (best_segment_dist b)
                \<le> score (pickup_vec ! vj) (remaining ! sj) d"
    by blast
  from step b nz vs(1-4) obtain seg where
    seg: "sp (current_node (pickup_vec ! vi)) (graph_id (remaining ! si)) = Inr seg"
    and res: "pickup_vec' = pickup_vec[vi := (pickup_vec ! vi)
              \<lparr>path := path (pickup_vec ! vi) @ (if length seg > 1 then tl seg else []),
               current_node := graph_id (remaining ! si),
               total_distance := total_distance (pickup_vec ! vi) + best_segment_dist b\<rparr>]"
      "remaining' = take si remaining @ drop (Suc si) remaining"
    by (auto simp: dispatch_step_def py_position_nat py_pop_nat Let_def split: sum.splits)
  from vs mn seg res
  show "\<exists>vi si d seg.
          vi < length pickup_vec \<and> si < length remaining
        \<and> reachable_pair spl (pickup_vec ! vi) (remaining ! si) d
        \<and> (\<forall>vj sj d'. vj < length pickup_vec \<and> sj < length remaining
               \<and> reachable_pair spl (pickup_vec ! vj) (remaining ! sj) d' \<longrightarrow>
             score (pickup_vec ! vi) (remaining ! si) d \<le> score (pickup_vec ! vj) (remaining ! sj) d')
        \<and> sp (current_node (pickup_vec ! vi)) (graph_id (remaining ! si)) = Inr seg
        \<and> pickup_vec' = pickup_vec[vi := (pickup_vec ! vi)
              \<lparr>path := path (pickup_vec ! vi) @ (if length seg > 1 then tl seg else []),
               current_node := graph_id (remaining ! si),
               total_distance := total_distance (pickup_vec ! vi) + d\<rparr>]
        \<and> remaining' = take si remaining @ drop (Suc si) remaining"
    by blast
next
  fix vj sj d'
  assume step: "dispatch_step spl sp pickup_vec remaining = Inr None"
    and lt: "vj < length pickup_vec \<and> sj < length remaining"
  then obtain b where b: "scan_vehicles spl pickup_vec 0 remaining initial_best = Inr b"
    by (auto simp: dispatch_step_def split: sum.splits if_splits)
  have "best_vehicle_idx b = - 1"
  proof (rule ccontr)
    assume nz: "best_vehicle_idx b \<noteq> - 1"
    from best_inv_all_cases [OF scan_vehicles_all [OF b]] nz
    obtain vi si where "vi < length pickup_vec" "si < length remaining"
      "best_vehicle_idx b = int vi" "best_survivor_idx b = int si" by blast
    with step b nz show False
      by (auto simp: dispatch_step_def py_position_nat py_pop_nat Let_def split: sum.splits)
  qed
  with best_inv_all_cases [OF scan_vehicles_all [OF b]] lt
  show "\<not> reachable_pair spl (pickup_vec ! vj) (remaining ! sj) d'"
    by auto
qed

text \<open>
  The scenario: survivor 1 (urgency 5, count 1) has score 100 / 26, survivor 2 (urgency 1,
  count 10) has score 100 / 11, and the first pass assigns survivor 1 although it is
  second in the list.
\<close>

lemma scenario_step:
  "dispatch_step scenario_spl scenario_sp (initial_vehicles [10]) scenario_survivors
     = Inr (Some ([\<lparr>vehicle_id = 0, current_node = 1, path = [10, 1], total_distance = 100\<rparr>],
                  [survivor_node 2 1 10]))"
  by (simp add: dispatch_step_def scenario_survivors_def initial_vehicles_def survivor_node_def
        survivor_at_def scenario_spl_def scenario_sp_def initial_best_def less_than_best_def
        py_position_def py_pop_def Let_def)

theorem dispatch_step_minimal_witness:
  "dispatch_step scenario_spl scenario_sp (initial_vehicles [10]) scenario_survivors
     = Inr (Some ([\<lparr>vehicle_id = 0, current_node = 1, path = [10, 1], total_distance = 100\<rparr>],
                  [survivor_node 2 1 10]))
   \<and> score (initial_vehicles [10] ! 0) (survivor_node 1 5 1) 100 = 100 / 26
   \<and> score (initial_vehicles [10] ! 0) (survivor_node 2 1 10) 100 = 100 / 11
   \<and> (\<exists>vi si d seg.
          vi < length (initial_vehicles [10]) \<and> si < length scenario_survivors
        \<and> reachable_pair scenario_spl (initial_vehicles [10] ! vi) (scenario_survivors ! si) d
        \<and> (\<forall>vj sj d'. vj < length (initial_vehicles [10]) \<and> sj < length scenario_survivors
               \<and> reachable_pair scenario_spl (initial_vehicles [10] ! vj) (scenario_survivors ! sj) d' \<longrightarrow>
             score (initial_vehicles [10] ! vi) (scenario_survivors ! si) d
               \<le> score (initial_vehicles [10] ! vj) (scenario_survivors ! sj) d')
        \<and> scenario_sp (current_node (initial_vehicles [10] ! vi)) (graph_id (scenario_survivors ! si))
             = Inr seg
        \<and> [\<lparr>vehicle_id = 0, current_node = 1, path = [10, 1], total_distance = 100\<rparr>]
            = (initial_vehicles [10])[vi := (initial_vehicles [10] ! vi)
              \<lparr>path := path (initial_vehicles [10] ! vi) @ (if length seg > 1 then tl seg else []),
               current_node := graph_id (scenario_survivors ! si),
               total_distance := total_distance (initial_vehicles [10] ! vi) + d\<rparr>]
        \<and> [survivor_node 2 1 10] = take si scenario_survivors @ drop (Suc si) scenario_survivors)"
proof -
  have sc: "score (initial_vehicles [10] ! 0) (survivor_node 1 5 1) 100 = 100 / 26"
    "score (initial_vehicles [10] ! 0) (survivor_node 2 1 10) 100 = 100 / 11"
    by (simp_all add: score_def initial_vehicles_def survivor_node_def survivor_at_def)
  from dispatch_step_minimal [of scenario_spl scenario_sp "initial_vehicles [10]" scenario_survivors]
       scenario_step sc
  show ?thesis by blast
qed


text \<open>
  Claim C1 as stated gives survivor 1 the score 4; the search stores the score 100 / 26
  for it, since the divisor is \<open>5\<^sup>2 + 1\<close>.
\<close>

theorem dispatch_score_counterexample:
  "scan_vehicles scenario_spl (initial_vehicles [10]) 0 [survivor_node 1 5 1] initial_best
     = Inr \<lparr>best_global_score = Some (100 / 26), best_vehicle_idx = 0, best_survivor_idx = 0,
            best_segment_dist = 100\<rparr>
   \<and> (100 / 26 :: real) \<noteq> 4"
  by (simp add: initial_vehicles_def survivor_node_def survivor_at_def scenario_spl_def
        initial_best_def less_than_best_def Let_def)


section \<open>Properties of route solving\<close>

















section \<open>Properties of the cache key\<close>

text \<open>
  The key is a text of 40 hexadecimal digits, and two boxes whose rounded fields are the
  same floats, signs of zeros included, have the same key.
\<close>

lemma length_hexdigest: "length (hexdigest w) = 40"
  by (simp add: hexdigest_def)

lemma hex_char_in: "hex_char d \<in> set ''0123456789abcdef''"
  unfolding hex_char_def by (rule nth_mem) simp

lemma hexdigest_chars: "set (hexdigest w) \<subseteq> set ''0123456789abcdef''"
  unfolding hexdigest_def using hex_char_in by auto

lemma make_bbox_key_normalized:
  "normalize_bbox n1 s1 e1 w1 = normalize_bbox n2 s2 e2 w2 \<Longrightarrow>
   make_bbox_key sha1 n1 s1 e1 w1 = make_bbox_key sha1 n2 s2 e2 w2"
  by (simp add: make_bbox_key_def)

lemma make_bbox_key_length: "length (make_bbox_key sha1 north south east west) = 40"
  by (simp add: make_bbox_key_def length_hexdigest split: prod.splits)

lemma rhe_tenth: "round_half_even (1 / 10) = 0"
  by (simp add: round_half_even_def Let_def)

lemma float_str_examples:
  "float_str (py_round (pos_float (1 / 1000000)) ROUND) = ''0.0''"
  "float_str (py_round (neg_float (1 / 1000000)) ROUND) = ''-0.0''"
  "float_str (py_round (neg_float 1) ROUND) = ''-1.0''"
  "float_str (py_round (pos_float 2) ROUND) = ''2.0''"
  "float_str (py_round (pos_float 1) ROUND) = ''1.0''"
  by (simp_all add: float_str_def py_round_def pos_float_def neg_float_def ROUND_def
        round_half_even_def Let_def nat_str.simps fraction_str_def digit_char_def)

text \<open>
  Claim C8 at two boxes whose north edges are one millionth of a degree north and south of
  the equator, with the other three edges the same. The north edges round to \<^verbatim>\<open>0.0\<close> and
  \<^verbatim>\<open>-0.0\<close>, which are equal values, so all four fields of the two boxes round to the same
  values. The keys are the digests of two different texts.
\<close>

theorem make_bbox_key_signed_zero:
  "py_eq (py_round (pos_float (1 / 1000000)) ROUND) (py_round (neg_float (1 / 1000000)) ROUND)
   \<and> make_bbox_key sha1 (pos_float (1 / 1000000)) (neg_float 1) (pos_float 2) (pos_float 1)
       = hexdigest (sha1 ''0.0,-1.0,2.0,1.0'')
   \<and> make_bbox_key sha1 (neg_float (1 / 1000000)) (neg_float 1) (pos_float 2) (pos_float 1)
       = hexdigest (sha1 ''-0.0,-1.0,2.0,1.0'')"
proof -
  have "py_eq (py_round (pos_float (1 / 1000000)) ROUND) (py_round (neg_float (1 / 1000000)) ROUND)"
    by (simp add: py_eq_def float_value_def py_round_def pos_float_def neg_float_def ROUND_def
          round_half_even_def Let_def)
  then show ?thesis
    by (simp add: make_bbox_key_def normalize_bbox_def float_str_examples)
qed

end
